theory Spec2Isabelle
  imports Complex_Main "HOL-Library.Sublist" "HOL-Library.List_Lexorder" "HOL-Library.Char_ord"
begin

section \<open>Strings and paths\<close>

text \<open>
  The bot (\<^verbatim>\<open>file_finder_bot.py\<close>) works on Python \<^verbatim>\<open>str\<close> values. They are modelled as
  \<^typ>\<open>string\<close>, one \<^typ>\<open>char\<close> per code point, so the model covers the strings whose code
  points lie below 256 (ASCII and Latin-1). On these the functions below are Python's:
  \<^verbatim>\<open>str.isspace\<close> and the regular expression class \<^verbatim>\<open>\s\<close> hold of the code points
  9..13, 28..32, 133 and 160, and \<^verbatim>\<open>str.lower\<close> moves \<^verbatim>\<open>A-Z\<close> and the Latin-1 capitals
  (192..222 without the multiplication sign 215) up by 32. \<^verbatim>\<open>os.path\<close> is the POSIX
  flavour: the separator \<^verbatim>\<open>os.sep\<close> is the slash.
\<close>

definition isspace :: "char \<Rightarrow> bool" where
  "isspace c = (let n = (of_char c :: nat) in
     (9 \<le> n \<and> n \<le> 13) \<or> (28 \<le> n \<and> n \<le> 32) \<or> n = 133 \<or> n = 160)"

definition lower_char :: "char \<Rightarrow> char" where
  "lower_char c = (let n = (of_char c :: nat) in
     if (65 \<le> n \<and> n \<le> 90) \<or> (192 \<le> n \<and> n \<le> 222 \<and> n \<noteq> 215)
     then char_of (n + 32) else c)"

definition lower :: "string \<Rightarrow> string" where
  "lower s = map lower_char s"

text \<open>\<^verbatim>\<open>s.strip()\<close>: whitespace removed at both ends.\<close>

definition strip :: "string \<Rightarrow> string" where
  "strip s = rev (dropWhile isspace (rev (dropWhile isspace s)))"


text \<open>\<^verbatim>\<open>s.replace('_', ' ')\<close>.\<close>

definition replace_underscore :: "string \<Rightarrow> string" where
  "replace_underscore s = map (\<lambda>c. if c = CHR ''_'' then CHR '' '' else c) s"

text \<open>\<^verbatim>\<open>s.startswith(p)\<close>, \<^verbatim>\<open>s.endswith(p)\<close> and \<^verbatim>\<open>w in s\<close> on strings.\<close>

definition startswith :: "string \<Rightarrow> string \<Rightarrow> bool" where
  "startswith s p = prefix p s"

definition endswith :: "string \<Rightarrow> string \<Rightarrow> bool" where
  "endswith s p = suffix p s"

definition str_in :: "string \<Rightarrow> string \<Rightarrow> bool" where
  "str_in w s = sublist w s"

text \<open>
  \<^verbatim>\<open>re.sub(r'[\s_]+', ' ', s)\<close>: every maximal run of whitespace and underscores becomes
  one space.
\<close>

definition ws_or_underscore :: "char \<Rightarrow> bool" where
  "ws_or_underscore c = (isspace c \<or> c = CHR ''_'')"


text \<open>
  \<^verbatim>\<open>SHERLOCK_PREFIX_PATTERN.sub('', s)\<close> for the pattern
  \<^verbatim>\<open>^\s*Sherlock\s*[-_]?\s*\<close> compiled with \<^verbatim>\<open>re.IGNORECASE\<close>. The pattern is anchored, so
  at most the prefix is removed; every quantifier is greedy and no two neighbouring parts
  can match the same character, so the match is the longest one. The pattern's class also
  lists the em dash (U+2014), which is no character of the model.
\<close>

definition SHERLOCK_PREFIX_PATTERN_sub :: "string \<Rightarrow> string" where
  "SHERLOCK_PREFIX_PATTERN_sub s =
     (let s1 = dropWhile isspace s in
      if lower (take 8 s1) = ''sherlock'' then
        let s2 = dropWhile isspace (drop 8 s1);
            s3 = (case s2 of [] \<Rightarrow> []
                  | c # cs \<Rightarrow> if c = CHR ''_'' \<or> c = CHR ''-'' then cs else s2)
        in dropWhile isspace s3
      else s)"

text \<open>\<^verbatim>\<open>os.path.basename\<close>, \<^verbatim>\<open>os.path.dirname\<close> (posixpath).\<close>

definition basename :: "string \<Rightarrow> string" where
  "basename p = rev (takeWhile (\<lambda>c. c \<noteq> CHR ''/'') (rev p))"

definition dirname :: "string \<Rightarrow> string" where
  "dirname p =
     (let head = rev (dropWhile (\<lambda>c. c \<noteq> CHR ''/'') (rev p)) in
      if head \<noteq> [] \<and> head \<noteq> replicate (length head) (CHR ''/'')
      then rev (dropWhile (\<lambda>c. c = CHR ''/'') (rev head)) else head)"

text \<open>
  \<^verbatim>\<open>os.path.splitext(p)[0]\<close>: the path without its extension. The extension starts at
  the last dot after the last separator, unless only dots precede it in the file name.
\<close>

definition rfind :: "string \<Rightarrow> char \<Rightarrow> int" where
  "rfind s c =
     (if c \<in> set s then int (length s) - 1 - int (length (takeWhile (\<lambda>x. x \<noteq> c) (rev s)))
      else - 1)"

definition splitext_root :: "string \<Rightarrow> string" where
  "splitext_root p =
     (let sepIndex = rfind p (CHR ''/'');
          dotIndex = rfind p (CHR ''.'')
      in if dotIndex > sepIndex
            \<and> list_ex (\<lambda>x. x \<noteq> CHR ''.'') (drop (nat (sepIndex + 1)) (take (nat dotIndex) p))
         then take (nat dotIndex) p else p)"

text \<open>\<^verbatim>\<open>os.path.join(a, b)\<close> (posixpath): an absolute \<^verbatim>\<open>b\<close> discards \<^verbatim>\<open>a\<close>.\<close>

definition path_join :: "string \<Rightarrow> string \<Rightarrow> string" where
  "path_join a b =
     (if startswith b ''/'' then b
      else if a = [] \<or> endswith a ''/'' then a @ b
      else a @ ''/'' @ b)"

section \<open>Configuration and environment\<close>

text \<open>
  The limits and names the bot reads from \<^verbatim>\<open>config.json\<close> and computes at start-up.
  Sizes in megabytes and times in seconds are Python floats; the model computes with
  exact rationals and does not model the rounding of binary floating point.
\<close>

record config =
  SCRIPT_DIR :: string
  BASE_FOLDER_NAME :: string
  GEMINI_ENABLED :: bool
  MAX_GEMINI_REQUESTS_PER_MINUTE :: int
  MAX_PDF_SIZE_MB_AI :: rat
  MAX_PDF_TO_SEND_COUNT :: int
  MAX_PDF_TOTAL_SIZE_MB_SEND :: rat

text \<open>
  The file system as the bot observes it: \<^verbatim>\<open>os.path.exists\<close>, \<^verbatim>\<open>os.path.getsize\<close>
  (\<^const>\<open>None\<close> when it raises \<^verbatim>\<open>OSError\<close>) and the text of a file opened for reading
  (\<^const>\<open>None\<close> when opening or reading raises).
\<close>

record filesystem =
  path_exists :: "string \<Rightarrow> bool"
  path_getsize :: "string \<Rightarrow> nat option"
  file_text :: "string \<Rightarrow> string option"

datatype py_error = OSError | IndexError | KeyError

datatype outcome = Returned | Raised py_error

section \<open>Catalog index\<close>

text \<open>
  The folder part of \<^verbatim>\<open>load_and_extract_person_folders\<close>: the parent directory of every
  catalog path is a person folder unless it is the base folder or has an empty basename;
  the result is \<^verbatim>\<open>sorted(list(unique_person_folders))\<close>. (The surname and category sets
  the function also fills are not part of this development.)
\<close>

definition load_and_extract_person_folders :: "string \<Rightarrow> string list \<Rightarrow> string list" where
  "load_and_extract_person_folders base_folder_name relative_file_paths =
     sort (remdups (filter (\<lambda>person_folder_path.
                       lower person_folder_path \<noteq> lower base_folder_name
                       \<and> basename person_folder_path \<noteq> [])
                     (map dirname relative_file_paths)))"

section \<open>Folder contents\<close>

text \<open>
  The test \<^verbatim>\<open>file_path_relative.startswith(folder_path + os.sep)\<close> that attributes a
  catalog path to a folder, in \<^verbatim>\<open>get_summary_from_folder\<close> and in
  \<^verbatim>\<open>send_folder_contents\<close>.
\<close>

definition in_folder :: "string \<Rightarrow> string \<Rightarrow> bool" where
  "in_folder file_path_relative folder_path = startswith file_path_relative (folder_path @ ''/'')"

text \<open>\<^verbatim>\<open>SHERLOCK_PREFIX_PATTERN.sub('', name).lower().replace('_', ' ')\<close>.\<close>

definition clean_lower :: "string \<Rightarrow> string" where
  "clean_lower name = replace_underscore (lower (SHERLOCK_PREFIX_PATTERN_sub name))"

definition names_match :: "string \<Rightarrow> string \<Rightarrow> bool" where
  "names_match file_path_relative base_file_name_lower =
     (let file_name = basename file_path_relative;
          file_name_no_ext = splitext_root file_name;
          clean_file_name_no_ext = clean_lower file_name_no_ext
      in startswith clean_file_name_no_ext base_file_name_lower
         \<or> startswith base_file_name_lower clean_file_name_no_ext)"

definition is_txt :: "string \<Rightarrow> bool" where
  "is_txt file_path_relative =
     (let file_ext = lower file_path_relative
      in endswith file_ext ''.txt'' \<or> endswith file_ext ''.txt_'')"

definition is_pdf :: "string \<Rightarrow> bool" where
  "is_pdf file_path_relative =
     (let file_ext = lower file_path_relative
      in endswith file_ext ''.pdf'' \<or> endswith file_ext ''.pdf_'')"

text \<open>
  \<^verbatim>\<open>get_summary_from_folder\<close>: the loop leaves at the first catalog path of the folder
  that is a summary file (\<^verbatim>\<open>break\<close>); then at most 500 characters of it are read.
\<close>

fun get_summary_from_folder_loop ::
  "string \<Rightarrow> string \<Rightarrow> string \<Rightarrow> string list \<Rightarrow> string option" where
  "get_summary_from_folder_loop script_dir folder_path base [] = None"
| "get_summary_from_folder_loop script_dir folder_path base (file_path_relative # rest) =
     (if \<not> in_folder file_path_relative folder_path
      then get_summary_from_folder_loop script_dir folder_path base rest
      else if names_match file_path_relative base \<and> is_txt file_path_relative
      then Some (path_join script_dir file_path_relative)
      else get_summary_from_folder_loop script_dir folder_path base rest)"

datatype summary_result = Summary string | SummaryUnreadable | SummaryNotFound

definition get_summary_from_folder ::
  "config \<Rightarrow> filesystem \<Rightarrow> string list \<Rightarrow> string \<Rightarrow> summary_result" where
  "get_summary_from_folder cfg fs relative_file_paths folder_path =
     (let person_folder_name = basename folder_path;
          base_file_name_lower = clean_lower person_folder_name
      in case get_summary_from_folder_loop (SCRIPT_DIR cfg) folder_path base_file_name_lower
                relative_file_paths of
           None \<Rightarrow> SummaryNotFound
         | Some txt_file_path \<Rightarrow>
             if txt_file_path \<noteq> [] \<and> path_exists fs txt_file_path then
               (case file_text fs txt_file_path of
                  None \<Rightarrow> SummaryUnreadable
                | Some content \<Rightarrow>
                    let summary = strip (take 500 content)
                    in Summary (if length summary = 500 then summary @ ''...'' else summary))
             else SummaryNotFound)"

text \<open>
  \<^verbatim>\<open>send_folder_contents\<close>, step 1: one pass over the catalog collects the summary file
  (\<^verbatim>\<open>txt_file_path\<close>, assigned at every match, no \<^verbatim>\<open>break\<close>) and the existing PDF files
  (\<^verbatim>\<open>pdf_files_to_send\<close>).
\<close>

fun send_folder_contents_collect ::
  "config \<Rightarrow> filesystem \<Rightarrow> string \<Rightarrow> string \<Rightarrow> string list
     \<Rightarrow> string option \<times> string list \<Rightarrow> string option \<times> string list" where
  "send_folder_contents_collect cfg fs folder base [] acc = acc"
| "send_folder_contents_collect cfg fs folder base (file_path_relative # rest) (txt_file_path, pdf_files_to_send) =
     (if \<not> in_folder file_path_relative folder
      then send_folder_contents_collect cfg fs folder base rest (txt_file_path, pdf_files_to_send)
      else
        let full_file_path = path_join (SCRIPT_DIR cfg) file_path_relative in
        if is_txt file_path_relative then
          (if names_match file_path_relative base
           then send_folder_contents_collect cfg fs folder base rest (Some full_file_path, pdf_files_to_send)
           else send_folder_contents_collect cfg fs folder base rest (txt_file_path, pdf_files_to_send))
        else if is_pdf file_path_relative then
          (if path_exists fs full_file_path
           then send_folder_contents_collect cfg fs folder base rest
                  (txt_file_path, pdf_files_to_send @ [full_file_path])
           else send_folder_contents_collect cfg fs folder base rest (txt_file_path, pdf_files_to_send))
        else send_folder_contents_collect cfg fs folder base rest (txt_file_path, pdf_files_to_send))"

text \<open>What the bot sends or shows; the texts themselves are transport.\<close>

datatype button = BtnPrev int | BtnNext int | BtnBlank | BtnCounter int int | BtnSelect int

datatype event =
    ChatActionTyping
  | ReplyAiDisabled
  | ReplyRateLimitExceeded int
  | ReplyFileTooLarge rat rat
  | ReplyUploadingFile
  | ReplyAskingGeneral
  | AiCall "string option" string
  | ReplyAiError
  | ReplyAiAnswer string
  | ReplyNoAnswerModeReset
  | SendSummary string
  | ReplySummaryReadError
  | NoticeCountLimit int
  | NoticeSizeLimit rat
  | SendDocument string
  | ReplyFolderEmpty
  | AlertInvalidIndex
  | AlertSessionExpired
  | AlertDataError
  | ShowCard string string summary_result "button list list"
  | ReplyBadFileId
  | ReplyContextNotFound
  | ReplyAiModeOn string
  | ReplyModeCancelled

text \<open>
  Step 2: the whole summary file is read (\<^verbatim>\<open>f.read().strip()\<close>) and sent when it is not
  empty.
\<close>

definition send_folder_contents_summary :: "filesystem \<Rightarrow> string option \<Rightarrow> event list" where
  "send_folder_contents_summary fs txt_file_path =
     (case txt_file_path of
        None \<Rightarrow> []
      | Some t \<Rightarrow>
          if t \<noteq> [] \<and> path_exists fs t then
            (case file_text fs t of
               None \<Rightarrow> [ReplySummaryReadError]
             | Some content \<Rightarrow>
                 let summary_content = strip content
                 in if summary_content \<noteq> [] then [SendSummary summary_content] else [])
          else [])"

text \<open>
  Step 3: the loop over \<^verbatim>\<open>pdf_files_to_send\<close> that fills \<^verbatim>\<open>files_to_send_final\<close>.
  The size is taken first (a file whose size raises \<^verbatim>\<open>OSError\<close> is logged and the loop
  goes on), then the count limit is tested, then the size limit; each limit sends its
  notice and leaves the loop (\<^verbatim>\<open>break\<close>).
\<close>

definition file_size_mb :: "nat \<Rightarrow> rat" where
  "file_size_mb file_size_bytes = of_nat file_size_bytes / (1024 * 1024)"

fun files_to_send_final_loop ::
  "config \<Rightarrow> filesystem \<Rightarrow> string list \<Rightarrow> string list \<Rightarrow> rat
     \<Rightarrow> string list \<times> rat \<times> event list" where
  "files_to_send_final_loop cfg fs [] files_to_send_final total_size_mb =
     (files_to_send_final, total_size_mb, [])"
| "files_to_send_final_loop cfg fs (pdf_path # rest) files_to_send_final total_size_mb =
     (case path_getsize fs pdf_path of
        None \<Rightarrow> files_to_send_final_loop cfg fs rest files_to_send_final total_size_mb
      | Some b \<Rightarrow>
          if int (length files_to_send_final) \<ge> MAX_PDF_TO_SEND_COUNT cfg
          then (files_to_send_final, total_size_mb, [NoticeCountLimit (MAX_PDF_TO_SEND_COUNT cfg)])
          else if total_size_mb + file_size_mb b > MAX_PDF_TOTAL_SIZE_MB_SEND cfg
          then (files_to_send_final, total_size_mb,
                [NoticeSizeLimit (MAX_PDF_TOTAL_SIZE_MB_SEND cfg)])
          else files_to_send_final_loop cfg fs rest (files_to_send_final @ [pdf_path])
                 (total_size_mb + file_size_mb b))"

text \<open>The size in megabytes the loop computes for a path, 0 where the size raises.\<close>

definition path_size_mb :: "filesystem \<Rightarrow> string \<Rightarrow> rat" where
  "path_size_mb fs pdf_path =
     (case path_getsize fs pdf_path of None \<Rightarrow> 0 | Some b \<Rightarrow> file_size_mb b)"

definition sizable :: "filesystem \<Rightarrow> string \<Rightarrow> bool" where
  "sizable fs pdf_path = (path_getsize fs pdf_path \<noteq> None)"

text \<open>
  \<^verbatim>\<open>send_folder_contents\<close>: the summary, the truncation notice if any, the admitted
  documents, or the notice that the folder holds neither. (The upload of each admitted
  file, with the handle it is given in \<^verbatim>\<open>bot_data['pdf_map']\<close>, is transport and is
  shown as one \<^const>\<open>SendDocument\<close> per file.)
\<close>

definition send_folder_contents ::
  "config \<Rightarrow> filesystem \<Rightarrow> string list \<Rightarrow> string \<Rightarrow> event list" where
  "send_folder_contents cfg fs relative_file_paths person_folder_relative_path =
     (let person_folder_name = basename person_folder_relative_path;
          base_file_name_lower = clean_lower person_folder_name;
          (txt_file_path, pdf_files_to_send) =
             send_folder_contents_collect cfg fs person_folder_relative_path base_file_name_lower
               relative_file_paths (None, []);
          (files_to_send_final, total_size_mb, notices) =
             files_to_send_final_loop cfg fs pdf_files_to_send [] 0;
          txt_found = (case txt_file_path of None \<Rightarrow> False
                       | Some t \<Rightarrow> t \<noteq> [] \<and> path_exists fs t)
      in send_folder_contents_summary fs txt_file_path
         @ notices
         @ map SendDocument files_to_send_final
         @ (if pdf_files_to_send = [] \<and> \<not> txt_found then [ReplyFolderEmpty] else []))"

section \<open>Session state\<close>

text \<open>
  \<^verbatim>\<open>context.user_data\<close>, one dictionary per user. A key that is absent is \<^const>\<open>None\<close>;
  the bot reads \<^verbatim>\<open>pdf_context_path\<close> with \<^verbatim>\<open>.get\<close> only, so an absent key and a stored
  \<^verbatim>\<open>None\<close> are the same value there.
\<close>

datatype mode = MODE_SEARCH | MODE_AI

record user_data =
  pdf_context_path :: "string option"
  current_matches :: "string list option"
  current_match_index :: "int option"
  last_query :: "string option"
  mode :: "mode option"
  gemini_requests :: "rat list option"
  send_birthday_broadcast :: "bool option"

text \<open>\<^verbatim>\<open>context.user_data.get('mode', MODE_SEARCH)\<close> and \<^verbatim>\<open>get_user_broadcast_status\<close>.\<close>

definition current_mode :: "user_data \<Rightarrow> mode" where
  "current_mode ud = (case mode ud of None \<Rightarrow> MODE_SEARCH | Some m \<Rightarrow> m)"

definition get_user_broadcast_status :: "user_data \<Rightarrow> bool" where
  "get_user_broadcast_status ud = (case send_birthday_broadcast ud of None \<Rightarrow> True | Some b \<Rightarrow> b)"

text \<open>
  The defaults of \<^verbatim>\<open>config.json\<close> (the second arguments of \<^verbatim>\<open>config.get\<close>) with the AI
  client available, and the \<^verbatim>\<open>user_data\<close> of a user the bot has not seen yet.
\<close>

definition default_config :: "string \<Rightarrow> config" where
  "default_config script_dir =
     \<lparr>SCRIPT_DIR = script_dir, BASE_FOLDER_NAME = ''Dok_2.5'', GEMINI_ENABLED = True,
      MAX_GEMINI_REQUESTS_PER_MINUTE = 5, MAX_PDF_SIZE_MB_AI = 15,
      MAX_PDF_TO_SEND_COUNT = 10, MAX_PDF_TOTAL_SIZE_MB_SEND = 50\<rparr>"

definition new_user_data :: user_data where
  "new_user_data =
     \<lparr>pdf_context_path = None, current_matches = None, current_match_index = None,
      last_query = None, mode = None, gemini_requests = None, send_birthday_broadcast = None\<rparr>"

section \<open>Disambiguation pager\<close>

text \<open>
  \<^verbatim>\<open>generate_person_card_markup\<close>: a row with the previous button, the position, the
  next button, and a row with the select button. A missing neighbour is a blank button.
\<close>

definition generate_person_card_markup :: "string list \<Rightarrow> int \<Rightarrow> button list list" where
  "generate_person_card_markup matches current_index =
     (let total_matches = int (length matches) in
      [[if current_index > 0 then BtnPrev (current_index - 1) else BtnBlank,
        BtnCounter (current_index + 1) total_matches,
        if current_index < total_matches - 1 then BtnNext (current_index + 1) else BtnBlank],
       [BtnSelect current_index]])"

text \<open>
  \<^verbatim>\<open>send_person_card\<close>. An index outside the list is answered with the alert when the
  call edits a card after a button press, and nothing is stored; otherwise the card is
  shown and the match list, the index and the query are stored.
\<close>

definition send_person_card ::
  "config \<Rightarrow> filesystem \<Rightarrow> string list \<Rightarrow> bool \<Rightarrow> string list \<Rightarrow> int \<Rightarrow> string \<Rightarrow> bool
     \<Rightarrow> user_data \<Rightarrow> user_data \<times> event list" where
  "send_person_card cfg fs relative_file_paths has_callback_query matches index query_text is_edit ud =
     (if \<not> (0 \<le> index \<and> index < int (length matches))
      then (ud, if is_edit \<and> has_callback_query then [AlertInvalidIndex] else [])
      else
        let folder_path = matches ! nat index;
            folder_name_raw = basename folder_path;
            fio_dr = strip (replace_underscore (SHERLOCK_PREFIX_PATTERN_sub folder_name_raw));
            summary = get_summary_from_folder cfg fs relative_file_paths folder_path;
            markup = generate_person_card_markup matches index
        in (ud\<lparr>current_matches := Some matches,
                current_match_index := Some index,
                last_query := Some query_text\<rparr>,
            [ShowCard query_text fio_dr summary markup]))"

text \<open>
  The branch of \<^verbatim>\<open>button_handler\<close> for a navigation button (\<^verbatim>\<open>card:prev:i\<close>,
  \<^verbatim>\<open>card:next:i\<close>). The target index is the integer parsed from the callback data,
  \<^const>\<open>None\<close> when the data does not parse.
\<close>

definition button_handler_card ::
  "config \<Rightarrow> filesystem \<Rightarrow> string list \<Rightarrow> int option \<Rightarrow> user_data \<Rightarrow> user_data \<times> event list" where
  "button_handler_card cfg fs relative_file_paths parsed_index ud =
     (case parsed_index of
        None \<Rightarrow> (ud, [AlertDataError])
      | Some new_index \<Rightarrow>
          let matches = current_matches ud;
              last_query = (case last_query ud of None \<Rightarrow> [] | Some q \<Rightarrow> q)
          in case matches of
               None \<Rightarrow> (ud, [AlertSessionExpired])
             | Some ms \<Rightarrow>
                 if ms \<noteq> []
                 then send_person_card cfg fs relative_file_paths True ms new_index last_query True ud
                 else (ud, [AlertSessionExpired]))"

section \<open>Mode changes\<close>

text \<open>
  The branch of \<^verbatim>\<open>button_handler\<close> for \<^verbatim>\<open>ask_ai|id\<close>: the handle is looked up in
  \<^verbatim>\<open>bot_data['pdf_map']\<close>; a known handle of an existing file makes it the active
  document and switches to the AI mode.
\<close>

definition button_handler_ask_ai ::
  "(int \<rightharpoonup> string) \<Rightarrow> filesystem \<Rightarrow> int option \<Rightarrow> user_data \<Rightarrow> user_data \<times> event list" where
  "button_handler_ask_ai pdf_map fs parsed_id ud =
     (case parsed_id of
        None \<Rightarrow> (ud, [ReplyBadFileId])
      | Some pdf_id \<Rightarrow>
          (case pdf_map pdf_id of
             None \<Rightarrow> (ud, [ReplyContextNotFound])
           | Some pdf_path \<Rightarrow>
               if pdf_path = [] \<or> \<not> path_exists fs pdf_path then (ud, [ReplyContextNotFound])
               else (ud\<lparr>pdf_context_path := Some pdf_path, mode := Some MODE_AI\<rparr>,
                     [ReplyAiModeOn pdf_path])))"

text \<open>\<^verbatim>\<open>cancel_command\<close> (\<^verbatim>\<open>/cancel\<close>).\<close>

definition cancel_command :: "user_data \<Rightarrow> user_data \<times> event list" where
  "cancel_command ud =
     (ud\<lparr>pdf_context_path := None,
         current_matches := None,
         current_match_index := None,
         mode := Some MODE_SEARCH\<rparr>,
      [ReplyModeCancelled])"

section \<open>Rate limiter and AI hand-off\<close>

text \<open>
  The first block of \<^verbatim>\<open>gemini_query\<close>: the user's log of request times is created when it
  is missing, pruned to the times less than 60 seconds old and stored; a pruned log with
  \<^verbatim>\<open>MAX_GEMINI_REQUESTS_PER_MINUTE\<close> entries or more denies the request, otherwise the
  current time is appended.
\<close>

definition requests_log :: "user_data \<Rightarrow> rat list" where
  "requests_log ud = (case gemini_requests ud of None \<Rightarrow> [] | Some ts \<Rightarrow> ts)"

definition rate_limit_check :: "int \<Rightarrow> rat \<Rightarrow> user_data \<Rightarrow> bool \<times> user_data" where
  "rate_limit_check max_per_minute current_time ud =
     (let requests = requests_log ud;
          pruned = filter (\<lambda>t. current_time - t < 60) requests;
          ud1 = ud\<lparr>gemini_requests := Some pruned\<rparr>
      in if int (length pruned) \<ge> max_per_minute then (False, ud1)
         else (True, ud1\<lparr>gemini_requests := Some (pruned @ [current_time])\<rparr>))"

text \<open>
  The external capability: what \<^verbatim>\<open>client.files.upload\<close> and
  \<^verbatim>\<open>client.models.generate_content\<close> do for a document (or none) and a question. They
  raise, or return a response whose text may be missing.
\<close>

datatype ai_result = AiRaises | AiResponse "string option"

text \<open>
  The answer part, the same in both branches: \<^verbatim>\<open>if response and response.text\<close> sends
  the answer, \<^verbatim>\<open>else\<close> only sends the reply that no answer was produced (its text ends
  with the words that the mode was reset to search; the branch assigns nothing).
\<close>

definition answer_event :: "string option \<Rightarrow> event" where
  "answer_event text =
     (case text of
        None \<Rightarrow> ReplyNoAnswerModeReset
      | Some t \<Rightarrow> if t \<noteq> [] then ReplyAiAnswer t else ReplyNoAnswerModeReset)"

text \<open>
  The branch of \<^verbatim>\<open>gemini_query\<close> with a document: size check, then the call. A document
  over the limit clears the active document, sets the search mode and removes the last
  entry of the log (\<^verbatim>\<open>gemini_requests.pop()\<close>, which raises on a missing or empty log; in
  \<^verbatim>\<open>gemini_query\<close> the log ends with the time just appended).
\<close>

definition gemini_query_with_file ::
  "config \<Rightarrow> filesystem \<Rightarrow> (string option \<Rightarrow> string \<Rightarrow> ai_result) \<Rightarrow> string \<Rightarrow> string
     \<Rightarrow> user_data \<Rightarrow> user_data \<times> event list \<times> outcome" where
  "gemini_query_with_file cfg fs ask query pdf_path ud =
     (case path_getsize fs pdf_path of
        None \<Rightarrow> (ud, [], Raised OSError)
      | Some file_size_bytes \<Rightarrow>
          if file_size_mb file_size_bytes > MAX_PDF_SIZE_MB_AI cfg then
            (case gemini_requests ud of
               None \<Rightarrow> (ud\<lparr>pdf_context_path := None, mode := Some MODE_SEARCH\<rparr>, [], Raised KeyError)
             | Some ts \<Rightarrow>
                 if ts = []
                 then (ud\<lparr>pdf_context_path := None, mode := Some MODE_SEARCH\<rparr>, [], Raised IndexError)
                 else (ud\<lparr>pdf_context_path := None, mode := Some MODE_SEARCH,
                           gemini_requests := Some (butlast ts)\<rparr>,
                       [ReplyFileTooLarge (file_size_mb file_size_bytes) (MAX_PDF_SIZE_MB_AI cfg)],
                       Returned))
          else
            (case ask (Some pdf_path) query of
               AiRaises \<Rightarrow>
                 (ud, [ReplyUploadingFile, AiCall (Some pdf_path) query, ReplyAiError], Returned)
             | AiResponse text \<Rightarrow>
                 (ud, [ReplyUploadingFile, AiCall (Some pdf_path) query, answer_event text],
                  Returned)))"

text \<open>The branch without a document (a general question).\<close>

definition gemini_query_general ::
  "(string option \<Rightarrow> string \<Rightarrow> ai_result) \<Rightarrow> string \<Rightarrow> user_data
     \<Rightarrow> user_data \<times> event list \<times> outcome" where
  "gemini_query_general ask query ud =
     (case ask None query of
        AiRaises \<Rightarrow> (ud, [ReplyAskingGeneral, AiCall None query, ReplyAiError], Returned)
      | AiResponse text \<Rightarrow>
          (ud, [ReplyAskingGeneral, AiCall None query, answer_event text], Returned))"

text \<open>
  \<^verbatim>\<open>gemini_query\<close>: the typing action, the switch \<^verbatim>\<open>GEMINI_ENABLED\<close>, the rate limit
  (a denial clears the active document and sets the search mode), then one of the two
  branches.
\<close>

definition gemini_query ::
  "config \<Rightarrow> filesystem \<Rightarrow> (string option \<Rightarrow> string \<Rightarrow> ai_result) \<Rightarrow> string \<Rightarrow> rat
     \<Rightarrow> user_data \<Rightarrow> user_data \<times> event list \<times> outcome" where
  "gemini_query cfg fs ask query current_time ud =
     (if \<not> GEMINI_ENABLED cfg then (ud, [ChatActionTyping, ReplyAiDisabled], Returned)
      else
        case rate_limit_check (MAX_GEMINI_REQUESTS_PER_MINUTE cfg) current_time ud of
          (False, ud1) \<Rightarrow>
            (ud1\<lparr>pdf_context_path := None, mode := Some MODE_SEARCH\<rparr>,
             [ChatActionTyping, ReplyRateLimitExceeded (MAX_GEMINI_REQUESTS_PER_MINUTE cfg)],
             Returned)
        | (True, ud2) \<Rightarrow>
            let (ud3, events, result) =
              (case pdf_context_path ud2 of
                 None \<Rightarrow> gemini_query_general ask query ud2
               | Some p \<Rightarrow>
                   if p \<noteq> [] \<and> path_exists fs p
                   then gemini_query_with_file cfg fs ask query p ud2
                   else gemini_query_general ask query ud2)
            in (ud3, ChatActionTyping # events, result))"

section \<open>The matcher\<close>





section \<open>Properties of the matcher\<close>
















section \<open>Properties of the rate limiter and of the AI hand-off\<close>

text \<open>
  Claim C3. The rate limiter prunes the user's log to the times less than 60 seconds
  old, allows the request exactly when the pruned log has fewer entries than the limit,
  appends the current time only then, and keeps the pruned log when it denies. With the
  limit 5 and a log without recent entries, five requests within ten seconds are allowed,
  a sixth one that follows within the window of the first is denied and leaves the five
  times in the log, and a request 60 seconds or more after the first is allowed again.
\<close>

theorem rate_limit_check_sliding_window:
  "rate_limit_check n now ud =
     (let pruned = filter (\<lambda>t. now - t < 60) (requests_log ud)
      in (int (length pruned) < n,
          ud\<lparr>gemini_requests := Some (if int (length pruned) < n then pruned @ [now] else pruned)\<rparr>))
   \<and> ((\<forall>t\<in>set (requests_log u0). 60 \<le> t1 - t)
        \<and> t1 \<le> t2 \<and> t2 \<le> t3 \<and> t3 \<le> t4 \<and> t4 \<le> t5 \<and> t5 - t1 \<le> 10
        \<and> t5 \<le> t6 \<and> t6 - t1 < 60 \<and> t6 \<le> t7 \<and> 60 \<le> t7 - t1 \<longrightarrow>
       (let (a1, u1) = rate_limit_check 5 t1 u0;
            (a2, u2) = rate_limit_check 5 t2 u1;
            (a3, u3) = rate_limit_check 5 t3 u2;
            (a4, u4) = rate_limit_check 5 t4 u3;
            (a5, u5) = rate_limit_check 5 t5 u4;
            (a6, u6) = rate_limit_check 5 t6 u5;
            (a7, u7) = rate_limit_check 5 t7 u6
        in a1 \<and> a2 \<and> a3 \<and> a4 \<and> a5 \<and> \<not> a6 \<and> gemini_requests u6 = Some [t1, t2, t3, t4, t5] \<and> a7))"
proof (intro conjI impI)
  show "rate_limit_check n now ud =
     (let pruned = filter (\<lambda>t. now - t < 60) (requests_log ud)
      in (int (length pruned) < n,
          ud\<lparr>gemini_requests := Some (if int (length pruned) < n then pruned @ [now] else pruned)\<rparr>))"
    by (simp add: rate_limit_check_def Let_def)
next
  assume h: "(\<forall>t\<in>set (requests_log u0). 60 \<le> t1 - t)
        \<and> t1 \<le> t2 \<and> t2 \<le> t3 \<and> t3 \<le> t4 \<and> t4 \<le> t5 \<and> t5 - t1 \<le> 10
        \<and> t5 \<le> t6 \<and> t6 - t1 < 60 \<and> t6 \<le> t7 \<and> 60 \<le> t7 - t1"
  then have "filter (\<lambda>t. t1 - t < 60) (requests_log u0) = []"
    by (auto simp: filter_empty_conv)
  with h show "(let (a1, u1) = rate_limit_check 5 t1 u0;
            (a2, u2) = rate_limit_check 5 t2 u1;
            (a3, u3) = rate_limit_check 5 t3 u2;
            (a4, u4) = rate_limit_check 5 t4 u3;
            (a5, u5) = rate_limit_check 5 t5 u4;
            (a6, u6) = rate_limit_check 5 t6 u5;
            (a7, u7) = rate_limit_check 5 t7 u6
        in a1 \<and> a2 \<and> a3 \<and> a4 \<and> a5 \<and> \<not> a6 \<and> gemini_requests u6 = Some [t1, t2, t3, t4, t5] \<and> a7)"
    by (simp add: rate_limit_check_def Let_def requests_log_def)
qed

theorem rate_limit_check_sliding_window_witness:
  "(let u0 = \<lparr>pdf_context_path = None, current_matches = None, current_match_index = None,
               last_query = None, mode = None, gemini_requests = Some [30], send_birthday_broadcast = None\<rparr>;
        (a1, u1) = rate_limit_check 5 100 u0;
        (a2, u2) = rate_limit_check 5 102 u1;
        (a3, u3) = rate_limit_check 5 104 u2;
        (a4, u4) = rate_limit_check 5 106 u3;
        (a5, u5) = rate_limit_check 5 110 u4;
        (a6, u6) = rate_limit_check 5 111 u5;
        (a7, u7) = rate_limit_check 5 161 u6
    in a1 \<and> a2 \<and> a3 \<and> a4 \<and> a5 \<and> \<not> a6 \<and> gemini_requests u6 = Some [100, 102, 104, 106, 110] \<and> a7)"
  using rate_limit_check_sliding_window [of 5 0
      "\<lparr>pdf_context_path = None, current_matches = None, current_match_index = None,
               last_query = None, mode = None, gemini_requests = Some [30], send_birthday_broadcast = None\<rparr>"
      "\<lparr>pdf_context_path = None, current_matches = None, current_match_index = None,
               last_query = None, mode = None, gemini_requests = Some [30], send_birthday_broadcast = None\<rparr>"
      100 102 104 106 110 111 161]
  by (simp add: requests_log_def Let_def)

lemma gemini_query_rate_limited:
  assumes "GEMINI_ENABLED cfg"
    and "int (length (filter (\<lambda>t. now - t < 60) (requests_log ud))) \<ge> MAX_GEMINI_REQUESTS_PER_MINUTE cfg"
  shows "gemini_query cfg fs ask query now ud =
     (ud\<lparr>gemini_requests := Some (filter (\<lambda>t. now - t < 60) (requests_log ud)),
         pdf_context_path := None, mode := Some MODE_SEARCH\<rparr>,
      [ChatActionTyping, ReplyRateLimitExceeded (MAX_GEMINI_REQUESTS_PER_MINUTE cfg)], Returned)"
  using assms by (simp add: gemini_query_def rate_limit_check_def Let_def)

lemma gemini_query_size_rejected:
  assumes "GEMINI_ENABLED cfg"
    and "int (length (filter (\<lambda>t. now - t < 60) (requests_log ud))) < MAX_GEMINI_REQUESTS_PER_MINUTE cfg"
    and "pdf_context_path ud = Some p" and "p \<noteq> []" and "path_exists fs p"
    and "path_getsize fs p = Some b" and "file_size_mb b > MAX_PDF_SIZE_MB_AI cfg"
  shows "gemini_query cfg fs ask query now ud =
     (ud\<lparr>gemini_requests := Some (filter (\<lambda>t. now - t < 60) (requests_log ud)),
         pdf_context_path := None, mode := Some MODE_SEARCH\<rparr>,
      [ChatActionTyping, ReplyFileTooLarge (file_size_mb b) (MAX_PDF_SIZE_MB_AI cfg)], Returned)"
  using assms by (simp add: gemini_query_def rate_limit_check_def gemini_query_with_file_def Let_def)

lemma gemini_query_ai_call_allowed:
  assumes "gemini_query cfg fs ask query now ud = (ud', events, res)"
    and "AiCall d q \<in> set events"
  shows "GEMINI_ENABLED cfg \<and> fst (rate_limit_check (MAX_GEMINI_REQUESTS_PER_MINUTE cfg) now ud)"
  using assms
  by (auto simp: gemini_query_def rate_limit_check_def gemini_query_with_file_def
        gemini_query_general_def Let_def
      split: if_splits option.splits ai_result.splits prod.splits)

lemma fst_rate_limit_check:
  "fst (rate_limit_check n now ud) = (int (length (filter (\<lambda>t. now - t < 60) (requests_log ud))) < n)"
  by (simp add: rate_limit_check_def Let_def)


text \<open>
  Claim C7. With the AI client enabled, a request the rate limit denies and a request
  whose active document is larger than the AI size limit both end with the search mode,
  no active document and exactly the typing action followed by the notice of the
  rejection; and the external AI capability is called only in runs in which the rate
  limit allowed the request.
\<close>

theorem policy_rejection_notice_and_reset:
  assumes "GEMINI_ENABLED cfg"
    and "gemini_query cfg fs ask query now ud = (ud', events, res)"
  shows "(\<not> fst (rate_limit_check (MAX_GEMINI_REQUESTS_PER_MINUTE cfg) now ud) \<longrightarrow>
            current_mode ud' = MODE_SEARCH \<and> pdf_context_path ud' = None
            \<and> events = [ChatActionTyping, ReplyRateLimitExceeded (MAX_GEMINI_REQUESTS_PER_MINUTE cfg)]
            \<and> res = Returned)
       \<and> (fst (rate_limit_check (MAX_GEMINI_REQUESTS_PER_MINUTE cfg) now ud)
            \<and> pdf_context_path ud = Some p \<and> p \<noteq> [] \<and> path_exists fs p
            \<and> path_getsize fs p = Some b \<and> file_size_mb b > MAX_PDF_SIZE_MB_AI cfg \<longrightarrow>
            current_mode ud' = MODE_SEARCH \<and> pdf_context_path ud' = None
            \<and> events = [ChatActionTyping, ReplyFileTooLarge (file_size_mb b) (MAX_PDF_SIZE_MB_AI cfg)]
            \<and> res = Returned)
       \<and> (\<forall>d q. AiCall d q \<in> set events \<longrightarrow>
            fst (rate_limit_check (MAX_GEMINI_REQUESTS_PER_MINUTE cfg) now ud))"
proof -
  have r1: "current_mode ud' = MODE_SEARCH \<and> pdf_context_path ud' = None
            \<and> events = [ChatActionTyping, ReplyRateLimitExceeded (MAX_GEMINI_REQUESTS_PER_MINUTE cfg)]
            \<and> res = Returned"
    if "\<not> fst (rate_limit_check (MAX_GEMINI_REQUESTS_PER_MINUTE cfg) now ud)"
  proof -
  from that have "int (length (filter (\<lambda>t. now - t < 60) (requests_log ud))) \<ge> MAX_GEMINI_REQUESTS_PER_MINUTE cfg"
    by (simp add: fst_rate_limit_check)
  from gemini_query_rate_limited [OF assms(1) this, of fs ask query] assms(2)
  show ?thesis
    by (auto simp: current_mode_def)
  qed
  have r2: "current_mode ud' = MODE_SEARCH \<and> pdf_context_path ud' = None
            \<and> events = [ChatActionTyping, ReplyFileTooLarge (file_size_mb b) (MAX_PDF_SIZE_MB_AI cfg)]
            \<and> res = Returned"
    if h: "fst (rate_limit_check (MAX_GEMINI_REQUESTS_PER_MINUTE cfg) now ud)
            \<and> pdf_context_path ud = Some p \<and> p \<noteq> [] \<and> path_exists fs p
            \<and> path_getsize fs p = Some b \<and> file_size_mb b > MAX_PDF_SIZE_MB_AI cfg"
  proof -
  from h have a: "int (length (filter (\<lambda>t. now - t < 60) (requests_log ud))) < MAX_GEMINI_REQUESTS_PER_MINUTE cfg"
    by (simp add: fst_rate_limit_check)
  from h have "pdf_context_path ud = Some p" "p \<noteq> []" "path_exists fs p"
    "path_getsize fs p = Some b" "file_size_mb b > MAX_PDF_SIZE_MB_AI cfg" by simp_all
  from gemini_query_size_rejected [OF assms(1) a this, of ask query] assms(2)
  show ?thesis
    by (auto simp: current_mode_def)
  qed
  have r3: "fst (rate_limit_check (MAX_GEMINI_REQUESTS_PER_MINUTE cfg) now ud)"
    if "AiCall d q \<in> set events" for d q
    using gemini_query_ai_call_allowed [OF assms(2) that] by blast
  show ?thesis using r1 r2 r3 by blast
qed

theorem policy_rejection_notice_and_reset_witness:
  "current_mode (fst (gemini_query (default_config ''/bot'')
       \<lparr>path_exists = (\<lambda>p. p = ''/bot/Dok_2.5/G/Ivanov/cv.pdf''),
        path_getsize = (\<lambda>p. if p = ''/bot/Dok_2.5/G/Ivanov/cv.pdf'' then Some 1048576 else None),
        file_text = (\<lambda>p. None)\<rparr>
       (\<lambda>d q. AiResponse (Some ''answer'')) ''question'' 105
       (new_user_data\<lparr>pdf_context_path := Some ''/bot/Dok_2.5/G/Ivanov/cv.pdf'', mode := Some MODE_AI,
                       gemini_requests := Some [100, 101, 102, 103, 104]\<rparr>))) = MODE_SEARCH
   \<and> current_mode (fst (gemini_query (default_config ''/bot'')
       \<lparr>path_exists = (\<lambda>p. p = ''/bot/Dok_2.5/G/Ivanov/cv.pdf''),
        path_getsize = (\<lambda>p. if p = ''/bot/Dok_2.5/G/Ivanov/cv.pdf'' then Some 16777216 else None),
        file_text = (\<lambda>p. None)\<rparr>
       (\<lambda>d q. AiResponse (Some ''answer'')) ''question'' 105
       (new_user_data\<lparr>pdf_context_path := Some ''/bot/Dok_2.5/G/Ivanov/cv.pdf'', mode := Some MODE_AI,
                       gemini_requests := Some [100]\<rparr>))) = MODE_SEARCH"
proof -
  let ?cfg = "default_config ''/bot''"
  let ?doc = "''/bot/Dok_2.5/G/Ivanov/cv.pdf''"
  let ?fs1 = "\<lparr>path_exists = (\<lambda>p. p = ?doc),
        path_getsize = (\<lambda>p. if p = ?doc then Some 1048576 else None),
        file_text = (\<lambda>p. None)\<rparr>"
  let ?fs2 = "\<lparr>path_exists = (\<lambda>p. p = ?doc),
        path_getsize = (\<lambda>p. if p = ?doc then Some 16777216 else None),
        file_text = (\<lambda>p. None)\<rparr>"
  let ?ask = "\<lambda>(d :: string option) (q :: string). AiResponse (Some ''answer'')"
  let ?ud1 = "new_user_data\<lparr>pdf_context_path := Some ?doc, mode := Some MODE_AI,
                       gemini_requests := Some [100, 101, 102, 103, 104]\<rparr>"
  let ?ud2 = "new_user_data\<lparr>pdf_context_path := Some ?doc, mode := Some MODE_AI,
                       gemini_requests := Some [100]\<rparr>"
  let ?r1 = "gemini_query ?cfg ?fs1 ?ask ''question'' 105 ?ud1"
  let ?r2 = "gemini_query ?cfg ?fs2 ?ask ''question'' 105 ?ud2"
  have en: "GEMINI_ENABLED ?cfg" by (simp add: default_config_def)
  have e1: "?r1 = (fst ?r1, fst (snd ?r1), snd (snd ?r1))" by simp
  have e2: "?r2 = (fst ?r2, fst (snd ?r2), snd (snd ?r2))" by simp
  have d1: "\<not> fst (rate_limit_check (MAX_GEMINI_REQUESTS_PER_MINUTE ?cfg) 105 ?ud1)"
    by (simp add: rate_limit_check_def requests_log_def default_config_def new_user_data_def)
  have d2: "fst (rate_limit_check (MAX_GEMINI_REQUESTS_PER_MINUTE ?cfg) 105 ?ud2)
      \<and> pdf_context_path ?ud2 = Some ?doc \<and> ?doc \<noteq> [] \<and> path_exists ?fs2 ?doc
      \<and> path_getsize ?fs2 ?doc = Some 16777216 \<and> file_size_mb 16777216 > MAX_PDF_SIZE_MB_AI ?cfg"
    by (simp add: rate_limit_check_def requests_log_def default_config_def new_user_data_def
          file_size_mb_def)
  from policy_rejection_notice_and_reset [OF en e1] d1
  have w1: "current_mode (fst ?r1) = MODE_SEARCH" by blast
  from policy_rejection_notice_and_reset [OF en e2, of ?doc 16777216] d2
  have w2: "current_mode (fst ?r2) = MODE_SEARCH" by blast
  show ?thesis using w1 w2 by blast
qed

text \<open>
  Claim C9. When a request passes the rate limit and is then rejected because the active
  document exceeds the AI size limit, the time appended for it is removed again: the log
  is the pruned log of before the request, and the same request time would pass the rate
  limit again.
\<close>

theorem size_rejection_restores_log:
  assumes "GEMINI_ENABLED cfg"
    and "fst (rate_limit_check (MAX_GEMINI_REQUESTS_PER_MINUTE cfg) now ud)"
    and "pdf_context_path ud = Some p" and "p \<noteq> []" and "path_exists fs p"
    and "path_getsize fs p = Some b" and "file_size_mb b > MAX_PDF_SIZE_MB_AI cfg"
  shows "gemini_requests (fst (gemini_query cfg fs ask query now ud))
           = Some (filter (\<lambda>t. now - t < 60) (requests_log ud))
       \<and> fst (rate_limit_check (MAX_GEMINI_REQUESTS_PER_MINUTE cfg) now
                (fst (gemini_query cfg fs ask query now ud)))"
proof -
  from assms(2) have a: "int (length (filter (\<lambda>t. now - t < 60) (requests_log ud))) < MAX_GEMINI_REQUESTS_PER_MINUTE cfg"
    by (simp add: fst_rate_limit_check)
  note r = gemini_query_size_rejected [OF assms(1) a assms(3-7), of ask query]
  show ?thesis using a by (simp add: r fst_rate_limit_check requests_log_def)
qed

theorem size_rejection_restores_log_witness:
  "gemini_requests (fst (gemini_query (default_config ''/bot'')
       \<lparr>path_exists = (\<lambda>p. p = ''/bot/Dok_2.5/G/Ivanov/cv.pdf''),
        path_getsize = (\<lambda>p. if p = ''/bot/Dok_2.5/G/Ivanov/cv.pdf'' then Some 16777216 else None),
        file_text = (\<lambda>p. None)\<rparr>
       (\<lambda>d q. AiResponse (Some ''answer'')) ''question'' 105
       (new_user_data\<lparr>pdf_context_path := Some ''/bot/Dok_2.5/G/Ivanov/cv.pdf'', mode := Some MODE_AI,
                       gemini_requests := Some [10, 100]\<rparr>))) = Some [100]"
proof -
  let ?cfg = "default_config ''/bot''"
  let ?doc = "''/bot/Dok_2.5/G/Ivanov/cv.pdf''"
  let ?fs2 = "\<lparr>path_exists = (\<lambda>p. p = ?doc),
        path_getsize = (\<lambda>p. if p = ?doc then Some 16777216 else None),
        file_text = (\<lambda>p. None)\<rparr>"
  let ?ask = "\<lambda>(d :: string option) (q :: string). AiResponse (Some ''answer'')"
  let ?ud2 = "new_user_data\<lparr>pdf_context_path := Some ?doc, mode := Some MODE_AI,
                       gemini_requests := Some [10, 100]\<rparr>"
  have en: "GEMINI_ENABLED ?cfg" by (simp add: default_config_def)
  have a: "fst (rate_limit_check (MAX_GEMINI_REQUESTS_PER_MINUTE ?cfg) 105 ?ud2)"
    by (simp add: rate_limit_check_def requests_log_def default_config_def new_user_data_def)
  have c: "pdf_context_path ?ud2 = Some ?doc" by (simp add: new_user_data_def)
  have n: "?doc \<noteq> []" by simp
  have x: "path_exists ?fs2 ?doc" by simp
  have g: "path_getsize ?fs2 ?doc = Some 16777216" by simp
  have b: "file_size_mb 16777216 > MAX_PDF_SIZE_MB_AI ?cfg"
    by (simp add: file_size_mb_def default_config_def)
  have l: "filter (\<lambda>t. 105 - t < 60) (requests_log ?ud2) = [100::rat]"
    by (simp add: requests_log_def new_user_data_def)
  from size_rejection_restores_log [OF en a c n x g b, of ?ask "''question''"]
  show ?thesis by (simp only: l)
qed

section \<open>Properties of the folder contents\<close>

lemma files_to_send_final_loop_count:
  "files_to_send_final_loop cfg fs pdfs f0 t0 = (final, total_mb, notices) \<Longrightarrow>
   int (length f0) \<le> MAX_PDF_TO_SEND_COUNT cfg \<Longrightarrow>
   int (length final) \<le> MAX_PDF_TO_SEND_COUNT cfg"
proof (induction pdfs arbitrary: f0 t0)
  case Nil
  then show ?case by simp
next
  case (Cons x xs)
  show ?case
  proof (cases "path_getsize fs x")
    case None
    with Cons show ?thesis by simp
  next
    case (Some b)
    with Cons.prems Cons.IH [of "f0 @ [x]" "t0 + file_size_mb b"] show ?thesis
      by (auto split: if_splits)
  qed
qed

lemma files_to_send_final_loop_total:
  "files_to_send_final_loop cfg fs pdfs f0 t0 = (final, total_mb, notices) \<Longrightarrow>
   t0 \<le> MAX_PDF_TOTAL_SIZE_MB_SEND cfg \<Longrightarrow>
   total_mb \<le> MAX_PDF_TOTAL_SIZE_MB_SEND cfg"
proof (induction pdfs arbitrary: f0 t0)
  case Nil
  then show ?case by simp
next
  case (Cons x xs)
  show ?case
  proof (cases "path_getsize fs x")
    case None
    with Cons show ?thesis by simp
  next
    case (Some b)
    with Cons.prems Cons.IH [of "f0 @ [x]" "t0 + file_size_mb b"] show ?thesis
      by (auto split: if_splits)
  qed
qed

lemma files_to_send_final_loop_shape:
  "files_to_send_final_loop cfg fs pdfs f0 t0 = (final, total_mb, notices) \<Longrightarrow>
   \<exists>adm. final = f0 @ adm \<and> total_mb = t0 + sum_list (map (path_size_mb fs) adm) \<and>
     ((notices = [] \<and> adm = filter (sizable fs) pdfs)
      \<or> (\<exists>pre p post. pdfs = pre @ p # post \<and> sizable fs p \<and> adm = filter (sizable fs) pre \<and>
            ((MAX_PDF_TO_SEND_COUNT cfg \<le> int (length final)
                \<and> notices = [NoticeCountLimit (MAX_PDF_TO_SEND_COUNT cfg)])
             \<or> (int (length final) < MAX_PDF_TO_SEND_COUNT cfg
                \<and> MAX_PDF_TOTAL_SIZE_MB_SEND cfg < total_mb + path_size_mb fs p
                \<and> notices = [NoticeSizeLimit (MAX_PDF_TOTAL_SIZE_MB_SEND cfg)]))))"
proof (induction pdfs arbitrary: f0 t0)
  case Nil
  then show ?case by simp
next
  case (Cons x xs)
  show ?case
  proof (cases "path_getsize fs x")
    case None
    then have ns: "\<not> sizable fs x" by (simp add: sizable_def)
    from Cons.prems None have "files_to_send_final_loop cfg fs xs f0 t0 = (final, total_mb, notices)"
      by simp
    from Cons.IH [OF this] obtain adm where
      a: "final = f0 @ adm" "total_mb = t0 + sum_list (map (path_size_mb fs) adm)"
      and d: "(notices = [] \<and> adm = filter (sizable fs) xs)
      \<or> (\<exists>pre p post. xs = pre @ p # post \<and> sizable fs p \<and> adm = filter (sizable fs) pre \<and>
            ((MAX_PDF_TO_SEND_COUNT cfg \<le> int (length final)
                \<and> notices = [NoticeCountLimit (MAX_PDF_TO_SEND_COUNT cfg)])
             \<or> (int (length final) < MAX_PDF_TO_SEND_COUNT cfg
                \<and> MAX_PDF_TOTAL_SIZE_MB_SEND cfg < total_mb + path_size_mb fs p
                \<and> notices = [NoticeSizeLimit (MAX_PDF_TOTAL_SIZE_MB_SEND cfg)])))"
      by blast
    from d show ?thesis
    proof
      assume "notices = [] \<and> adm = filter (sizable fs) xs"
      with a ns show ?thesis by auto
    next
      assume "\<exists>pre p post. xs = pre @ p # post \<and> sizable fs p \<and> adm = filter (sizable fs) pre \<and>
            ((MAX_PDF_TO_SEND_COUNT cfg \<le> int (length final)
                \<and> notices = [NoticeCountLimit (MAX_PDF_TO_SEND_COUNT cfg)])
             \<or> (int (length final) < MAX_PDF_TO_SEND_COUNT cfg
                \<and> MAX_PDF_TOTAL_SIZE_MB_SEND cfg < total_mb + path_size_mb fs p
                \<and> notices = [NoticeSizeLimit (MAX_PDF_TOTAL_SIZE_MB_SEND cfg)]))"
      then obtain pre p post where
        e: "xs = pre @ p # post" "sizable fs p" "adm = filter (sizable fs) pre"
          "(MAX_PDF_TO_SEND_COUNT cfg \<le> int (length final)
                \<and> notices = [NoticeCountLimit (MAX_PDF_TO_SEND_COUNT cfg)])
             \<or> (int (length final) < MAX_PDF_TO_SEND_COUNT cfg
                \<and> MAX_PDF_TOTAL_SIZE_MB_SEND cfg < total_mb + path_size_mb fs p
                \<and> notices = [NoticeSizeLimit (MAX_PDF_TOTAL_SIZE_MB_SEND cfg)])"
        by blast
      have "x # xs = (x # pre) @ p # post" using e(1) by simp
      moreover have "adm = filter (sizable fs) (x # pre)" using e(3) ns by simp
      ultimately show ?thesis using a e(2) e(4) by blast
    qed
  next
    case (Some b)
    then have sz: "sizable fs x" and ps: "path_size_mb fs x = file_size_mb b"
      by (simp_all add: sizable_def path_size_mb_def)
    consider (over_count) "MAX_PDF_TO_SEND_COUNT cfg \<le> int (length f0)"
      | (over_size) "int (length f0) < MAX_PDF_TO_SEND_COUNT cfg"
               "MAX_PDF_TOTAL_SIZE_MB_SEND cfg < t0 + file_size_mb b"
      | (admit) "int (length f0) < MAX_PDF_TO_SEND_COUNT cfg"
               "\<not> MAX_PDF_TOTAL_SIZE_MB_SEND cfg < t0 + file_size_mb b"
      by linarith
    then show ?thesis
    proof cases
      case over_count
      with Cons.prems Some have r: "final = f0" "total_mb = t0"
        "notices = [NoticeCountLimit (MAX_PDF_TO_SEND_COUNT cfg)]" by simp_all
      have "x # xs = [] @ x # xs" by simp
      have "\<exists>pre p post. x # xs = pre @ p # post \<and> sizable fs p \<and> [] = filter (sizable fs) pre \<and>
            ((MAX_PDF_TO_SEND_COUNT cfg \<le> int (length final)
                \<and> notices = [NoticeCountLimit (MAX_PDF_TO_SEND_COUNT cfg)])
             \<or> (int (length final) < MAX_PDF_TO_SEND_COUNT cfg
                \<and> MAX_PDF_TOTAL_SIZE_MB_SEND cfg < total_mb + path_size_mb fs p
                \<and> notices = [NoticeSizeLimit (MAX_PDF_TOTAL_SIZE_MB_SEND cfg)]))"
        using r sz over_count
        by (intro exI [of _ "[]"] exI [of _ x] exI [of _ xs]) simp
      then show ?thesis using r
        by (intro exI [of _ "[]"]) simp
    next
      case over_size
      with Cons.prems Some have r: "final = f0" "total_mb = t0"
        "notices = [NoticeSizeLimit (MAX_PDF_TOTAL_SIZE_MB_SEND cfg)]" by simp_all
      have "x # xs = [] @ x # xs" by simp
      have "\<exists>pre p post. x # xs = pre @ p # post \<and> sizable fs p \<and> [] = filter (sizable fs) pre \<and>
            ((MAX_PDF_TO_SEND_COUNT cfg \<le> int (length final)
                \<and> notices = [NoticeCountLimit (MAX_PDF_TO_SEND_COUNT cfg)])
             \<or> (int (length final) < MAX_PDF_TO_SEND_COUNT cfg
                \<and> MAX_PDF_TOTAL_SIZE_MB_SEND cfg < total_mb + path_size_mb fs p
                \<and> notices = [NoticeSizeLimit (MAX_PDF_TOTAL_SIZE_MB_SEND cfg)]))"
        using r sz over_size ps
        by (intro exI [of _ "[]"] exI [of _ x] exI [of _ xs]) simp
      then show ?thesis using r
        by (intro exI [of _ "[]"]) simp
    next
      case admit
      with Cons.prems Some have
        "files_to_send_final_loop cfg fs xs (f0 @ [x]) (t0 + file_size_mb b) = (final, total_mb, notices)"
        by simp
      from Cons.IH [OF this] obtain adm where
        a: "final = (f0 @ [x]) @ adm" "total_mb = (t0 + file_size_mb b) + sum_list (map (path_size_mb fs) adm)"
        and d: "(notices = [] \<and> adm = filter (sizable fs) xs)
        \<or> (\<exists>pre p post. xs = pre @ p # post \<and> sizable fs p \<and> adm = filter (sizable fs) pre \<and>
            ((MAX_PDF_TO_SEND_COUNT cfg \<le> int (length final)
                \<and> notices = [NoticeCountLimit (MAX_PDF_TO_SEND_COUNT cfg)])
             \<or> (int (length final) < MAX_PDF_TO_SEND_COUNT cfg
                \<and> MAX_PDF_TOTAL_SIZE_MB_SEND cfg < total_mb + path_size_mb fs p
                \<and> notices = [NoticeSizeLimit (MAX_PDF_TOTAL_SIZE_MB_SEND cfg)])))"
        by blast
      have a': "final = f0 @ (x # adm)" "total_mb = t0 + sum_list (map (path_size_mb fs) (x # adm))"
        using a ps by simp_all
      from d show ?thesis
      proof
        assume "notices = [] \<and> adm = filter (sizable fs) xs"
        then have "notices = [] \<and> x # adm = filter (sizable fs) (x # xs)" using sz by simp
        with a' show ?thesis by blast
      next
        assume "\<exists>pre p post. xs = pre @ p # post \<and> sizable fs p \<and> adm = filter (sizable fs) pre \<and>
            ((MAX_PDF_TO_SEND_COUNT cfg \<le> int (length final)
                \<and> notices = [NoticeCountLimit (MAX_PDF_TO_SEND_COUNT cfg)])
             \<or> (int (length final) < MAX_PDF_TO_SEND_COUNT cfg
                \<and> MAX_PDF_TOTAL_SIZE_MB_SEND cfg < total_mb + path_size_mb fs p
                \<and> notices = [NoticeSizeLimit (MAX_PDF_TOTAL_SIZE_MB_SEND cfg)]))"
        then obtain pre p post where
          e: "xs = pre @ p # post" "sizable fs p" "adm = filter (sizable fs) pre"
            "(MAX_PDF_TO_SEND_COUNT cfg \<le> int (length final)
                \<and> notices = [NoticeCountLimit (MAX_PDF_TO_SEND_COUNT cfg)])
             \<or> (int (length final) < MAX_PDF_TO_SEND_COUNT cfg
                \<and> MAX_PDF_TOTAL_SIZE_MB_SEND cfg < total_mb + path_size_mb fs p
                \<and> notices = [NoticeSizeLimit (MAX_PDF_TOTAL_SIZE_MB_SEND cfg)])"
          by blast
        have "x # xs = (x # pre) @ p # post" using e(1) by simp
        moreover have "x # adm = filter (sizable fs) (x # pre)" using e(3) sz by simp
        ultimately show ?thesis using a' e(2) e(4) by blast
      qed
    qed
  qed
qed

lemma collect_pdfs:
  "snd (send_folder_contents_collect cfg fs folder base paths (t0, p0)) =
     p0 @ map (path_join (SCRIPT_DIR cfg))
            (filter (\<lambda>p. in_folder p folder \<and> \<not> is_txt p \<and> is_pdf p
                         \<and> path_exists fs (path_join (SCRIPT_DIR cfg) p)) paths)"
  by (induction paths arbitrary: t0 p0) (simp_all add: Let_def)

lemma collect_txt:
  "fst (send_folder_contents_collect cfg fs folder base paths (t0, p0)) =
     (case rev (filter (\<lambda>p. in_folder p folder \<and> is_txt p \<and> names_match p base) paths) of
        [] \<Rightarrow> t0
      | m # ms \<Rightarrow> Some (path_join (SCRIPT_DIR cfg) m))"
proof (induction paths arbitrary: t0 p0)
  case Nil
  then show ?case by simp
next
  case (Cons x xs)
  then show ?case by (simp add: Let_def split: list.splits)
qed

lemma summary_loop_first:
  "get_summary_from_folder_loop dir folder base paths =
     (case filter (\<lambda>p. in_folder p folder \<and> names_match p base \<and> is_txt p) paths of
        [] \<Rightarrow> None
      | m # ms \<Rightarrow> Some (path_join dir m))"
  by (induction paths) simp_all


text \<open>
  Claim C2, amended. For limits that are not negative: the documents of a folder are the
  existing PDF entries of the catalog under the folder, in catalog order; the files
  admitted from them never number more than \<^verbatim>\<open>MAX_PDF_TO_SEND_COUNT\<close>, and their
  cumulative size, which is the running total, never exceeds
  \<^verbatim>\<open>MAX_PDF_TOTAL_SIZE_MB_SEND\<close>. For each document the size is taken first: a file whose
  size cannot be determined is passed over before either limit is tested, and the loop
  goes on. For a file whose size can be determined the count limit is tested first, then
  the size limit. Either no notice is sent and every file whose size can be determined is
  admitted, or admission stops at the first such file that breaches a limit: all files
  before it whose size can be determined are admitted, none after it, and the single
  notice names the count limit when the count is reached and otherwise the size limit,
  which the running total plus the size of that file exceeds.
\<close>

theorem folder_selection_within_budget:
  assumes "0 \<le> MAX_PDF_TO_SEND_COUNT cfg" and "0 \<le> MAX_PDF_TOTAL_SIZE_MB_SEND cfg"
    and "send_folder_contents_collect cfg fs folder base paths (None, []) = (txt, pdfs)"
    and "files_to_send_final_loop cfg fs pdfs [] 0 = (final, total_mb, notices)"
  shows "pdfs = map (path_join (SCRIPT_DIR cfg))
                 (filter (\<lambda>p. in_folder p folder \<and> \<not> is_txt p \<and> is_pdf p
                              \<and> path_exists fs (path_join (SCRIPT_DIR cfg) p)) paths)
       \<and> int (length final) \<le> MAX_PDF_TO_SEND_COUNT cfg
       \<and> total_mb = sum_list (map (path_size_mb fs) final)
       \<and> total_mb \<le> MAX_PDF_TOTAL_SIZE_MB_SEND cfg
       \<and> ((notices = [] \<and> final = filter (sizable fs) pdfs)
          \<or> (\<exists>pre p post. pdfs = pre @ p # post \<and> sizable fs p \<and> final = filter (sizable fs) pre \<and>
                ((MAX_PDF_TO_SEND_COUNT cfg \<le> int (length final)
                    \<and> notices = [NoticeCountLimit (MAX_PDF_TO_SEND_COUNT cfg)])
                 \<or> (int (length final) < MAX_PDF_TO_SEND_COUNT cfg
                    \<and> MAX_PDF_TOTAL_SIZE_MB_SEND cfg < total_mb + path_size_mb fs p
                    \<and> notices = [NoticeSizeLimit (MAX_PDF_TOTAL_SIZE_MB_SEND cfg)]))))"
proof -
  have p: "pdfs = map (path_join (SCRIPT_DIR cfg))
                 (filter (\<lambda>p. in_folder p folder \<and> \<not> is_txt p \<and> is_pdf p
                              \<and> path_exists fs (path_join (SCRIPT_DIR cfg) p)) paths)"
    using collect_pdfs [of cfg fs folder base paths None "[]"] assms(3) by simp
  have c: "int (length final) \<le> MAX_PDF_TO_SEND_COUNT cfg"
    using files_to_send_final_loop_count [OF assms(4)] assms(1) by simp
  have t: "total_mb \<le> MAX_PDF_TOTAL_SIZE_MB_SEND cfg"
    using files_to_send_final_loop_total [OF assms(4)] assms(2) by simp
  from files_to_send_final_loop_shape [OF assms(4)] obtain adm where
    a: "final = [] @ adm" "total_mb = 0 + sum_list (map (path_size_mb fs) adm)"
    and d: "(notices = [] \<and> adm = filter (sizable fs) pdfs)
          \<or> (\<exists>pre p post. pdfs = pre @ p # post \<and> sizable fs p \<and> adm = filter (sizable fs) pre \<and>
                ((MAX_PDF_TO_SEND_COUNT cfg \<le> int (length final)
                    \<and> notices = [NoticeCountLimit (MAX_PDF_TO_SEND_COUNT cfg)])
                 \<or> (int (length final) < MAX_PDF_TO_SEND_COUNT cfg
                    \<and> MAX_PDF_TOTAL_SIZE_MB_SEND cfg < total_mb + path_size_mb fs p
                    \<and> notices = [NoticeSizeLimit (MAX_PDF_TOTAL_SIZE_MB_SEND cfg)])))"
    by blast
  have fa: "adm = final" using a(1) by simp
  have s1: "total_mb = sum_list (map (path_size_mb fs) final)" using a(2) fa by simp
  note s2 = d [unfolded fa]
  show ?thesis using p c t s1 s2 by blast
qed

theorem folder_selection_within_budget_witness:
  "files_to_send_final_loop ((default_config ''/bot'')\<lparr>MAX_PDF_TO_SEND_COUNT := 2\<rparr>)
       \<lparr>path_exists = (\<lambda>p. True),
        path_getsize = (\<lambda>p. if p = ''/bot/Dok_2.5/G/Ivanov/b.pdf'' then None else Some 2097152),
        file_text = (\<lambda>p. None)\<rparr>
       [''/bot/Dok_2.5/G/Ivanov/a.pdf'', ''/bot/Dok_2.5/G/Ivanov/b.pdf'',
        ''/bot/Dok_2.5/G/Ivanov/c.pdf'', ''/bot/Dok_2.5/G/Ivanov/d.pdf''] [] 0
     = ([''/bot/Dok_2.5/G/Ivanov/a.pdf'', ''/bot/Dok_2.5/G/Ivanov/c.pdf''], 4, [NoticeCountLimit 2])
   \<and> int (length [''/bot/Dok_2.5/G/Ivanov/a.pdf'', ''/bot/Dok_2.5/G/Ivanov/c.pdf''])
        \<le> MAX_PDF_TO_SEND_COUNT ((default_config ''/bot'')\<lparr>MAX_PDF_TO_SEND_COUNT := 2\<rparr>)
   \<and> (4::rat) \<le> MAX_PDF_TOTAL_SIZE_MB_SEND ((default_config ''/bot'')\<lparr>MAX_PDF_TO_SEND_COUNT := 2\<rparr>)"
proof -
  let ?cfg = "(default_config ''/bot'')\<lparr>MAX_PDF_TO_SEND_COUNT := 2\<rparr>"
  let ?fs = "\<lparr>path_exists = (\<lambda>p. True),
        path_getsize = (\<lambda>p. if p = ''/bot/Dok_2.5/G/Ivanov/b.pdf'' then None else Some 2097152),
        file_text = (\<lambda>p. None)\<rparr>"
  let ?paths = "[''Dok_2.5/G/Ivanov/a.pdf'', ''Dok_2.5/G/Ivanov/b.pdf'', ''Dok_2.5/G/Ivanov/Ivanov.txt'',
        ''Dok_2.5/G/Petrov/x.pdf'', ''Dok_2.5/G/Ivanov/c.pdf'', ''Dok_2.5/G/Ivanov/d.pdf'']"
  let ?pdfs = "[''/bot/Dok_2.5/G/Ivanov/a.pdf'', ''/bot/Dok_2.5/G/Ivanov/b.pdf'',
        ''/bot/Dok_2.5/G/Ivanov/c.pdf'', ''/bot/Dok_2.5/G/Ivanov/d.pdf'']"
  let ?final = "[''/bot/Dok_2.5/G/Ivanov/a.pdf'', ''/bot/Dok_2.5/G/Ivanov/c.pdf'']"
  have c: "send_folder_contents_collect ?cfg ?fs ''Dok_2.5/G/Ivanov'' ''ivanov'' ?paths (None, [])
             = (Some ''/bot/Dok_2.5/G/Ivanov/Ivanov.txt'', ?pdfs)"
    by code_simp
  have l: "files_to_send_final_loop ?cfg ?fs ?pdfs [] 0 = (?final, 4, [NoticeCountLimit 2])"
    by (simp add: default_config_def file_size_mb_def)
  have h1: "0 \<le> MAX_PDF_TO_SEND_COUNT ?cfg" by (simp add: default_config_def)
  have h2: "0 \<le> MAX_PDF_TOTAL_SIZE_MB_SEND ?cfg" by (simp add: default_config_def)
  note t = folder_selection_within_budget [OF h1 h2 c l]
  show ?thesis
    by (rule conjI [OF l conjI [OF conjunct1 [OF conjunct2 [OF t]]
          conjunct1 [OF conjunct2 [OF conjunct2 [OF conjunct2 [OF t]]]]]])
qed

text \<open>
  The claim as first stated tests the count limit before each document and sends a
  notice at the first document that would breach a limit. The loop takes the size first:
  with the count limit 1, a first file of 1 MiB and a second file whose size raises, the
  first file is admitted, the limit is reached, the second file is passed over, and no
  notice is sent.
\<close>

theorem unsizable_file_at_count_limit_counterexample:
  "files_to_send_final_loop ((default_config ''/bot'')\<lparr>MAX_PDF_TO_SEND_COUNT := 1\<rparr>)
       \<lparr>path_exists = (\<lambda>p. True),
        path_getsize = (\<lambda>p. if p = ''/bot/Dok_2.5/G/Ivanov/b.pdf'' then None else Some 1048576),
        file_text = (\<lambda>p. None)\<rparr>
       [''/bot/Dok_2.5/G/Ivanov/a.pdf'', ''/bot/Dok_2.5/G/Ivanov/b.pdf''] [] 0
     = ([''/bot/Dok_2.5/G/Ivanov/a.pdf''], 1, [])
   \<and> MAX_PDF_TO_SEND_COUNT ((default_config ''/bot'')\<lparr>MAX_PDF_TO_SEND_COUNT := 1\<rparr>)
        \<le> int (length [''/bot/Dok_2.5/G/Ivanov/a.pdf''])
   \<and> path_getsize
        \<lparr>path_exists = (\<lambda>p. True),
         path_getsize = (\<lambda>p. if p = ''/bot/Dok_2.5/G/Ivanov/b.pdf'' then None else Some 1048576),
         file_text = (\<lambda>p. None)\<rparr> ''/bot/Dok_2.5/G/Ivanov/b.pdf'' = None"
  by (simp add: default_config_def file_size_mb_def)

section \<open>Properties of the session and of the pager\<close>

text \<open>
  Claim C4, evaluated on a session in the AI mode whose active document exists and is
  within the size limit, when the AI call returns a response without text: the reply
  saying that the mode was reset to search is sent, but the session keeps the AI mode and
  the active document; only the request time is added to the log.
\<close>

theorem no_answer_keeps_ai_mode:
  "gemini_query (default_config ''/bot'')
       \<lparr>path_exists = (\<lambda>p. p = ''/bot/Dok_2.5/G/Ivanov/cv.pdf''),
        path_getsize = (\<lambda>p. if p = ''/bot/Dok_2.5/G/Ivanov/cv.pdf'' then Some 1048576 else None),
        file_text = (\<lambda>p. None)\<rparr>
       (\<lambda>d q. AiResponse None) ''question'' 100
       (new_user_data\<lparr>pdf_context_path := Some ''/bot/Dok_2.5/G/Ivanov/cv.pdf'', mode := Some MODE_AI\<rparr>)
     = (new_user_data\<lparr>pdf_context_path := Some ''/bot/Dok_2.5/G/Ivanov/cv.pdf'', mode := Some MODE_AI,
                       gemini_requests := Some [100]\<rparr>,
        [ChatActionTyping, ReplyUploadingFile, AiCall (Some ''/bot/Dok_2.5/G/Ivanov/cv.pdf'') ''question'',
         ReplyNoAnswerModeReset],
        Returned)
   \<and> current_mode (new_user_data\<lparr>pdf_context_path := Some ''/bot/Dok_2.5/G/Ivanov/cv.pdf'',
                       mode := Some MODE_AI, gemini_requests := Some [100]\<rparr>) = MODE_AI"
  by (simp add: gemini_query_def rate_limit_check_def requests_log_def gemini_query_with_file_def
        answer_event_def default_config_def new_user_data_def file_size_mb_def current_mode_def Let_def)

text \<open>
  Claim C8. Selecting a document for the AI (a handle that \<^verbatim>\<open>pdf_map\<close> resolves to an
  existing file) gives the AI mode with that path as the active document, from any mode
  and so from the search mode; \<^verbatim>\<open>/cancel\<close> gives the search mode with no active document,
  from any mode. Neither changes the stored broadcast setting.
\<close>

theorem mode_transitions_keep_broadcast:
  "(pdf_map pdf_id = Some p \<and> p \<noteq> [] \<and> path_exists fs p \<longrightarrow>
      current_mode (fst (button_handler_ask_ai pdf_map fs (Some pdf_id) ud)) = MODE_AI
      \<and> pdf_context_path (fst (button_handler_ask_ai pdf_map fs (Some pdf_id) ud)) = Some p
      \<and> send_birthday_broadcast (fst (button_handler_ask_ai pdf_map fs (Some pdf_id) ud))
           = send_birthday_broadcast ud)
   \<and> current_mode (fst (cancel_command ud)) = MODE_SEARCH
   \<and> pdf_context_path (fst (cancel_command ud)) = None
   \<and> send_birthday_broadcast (fst (cancel_command ud)) = send_birthday_broadcast ud"
  by (simp add: button_handler_ask_ai_def cancel_command_def current_mode_def)

theorem mode_transitions_keep_broadcast_witness:
  "current_mode (fst (button_handler_ask_ai [7 \<mapsto> ''/bot/Dok_2.5/G/Ivanov/cv.pdf'']
       \<lparr>path_exists = (\<lambda>p. True), path_getsize = (\<lambda>p. None), file_text = (\<lambda>p. None)\<rparr>
       (Some 7) (new_user_data\<lparr>send_birthday_broadcast := Some False\<rparr>))) = MODE_AI
   \<and> pdf_context_path (fst (button_handler_ask_ai [7 \<mapsto> ''/bot/Dok_2.5/G/Ivanov/cv.pdf'']
       \<lparr>path_exists = (\<lambda>p. True), path_getsize = (\<lambda>p. None), file_text = (\<lambda>p. None)\<rparr>
       (Some 7) (new_user_data\<lparr>send_birthday_broadcast := Some False\<rparr>)))
       = Some ''/bot/Dok_2.5/G/Ivanov/cv.pdf''
   \<and> send_birthday_broadcast (fst (button_handler_ask_ai [7 \<mapsto> ''/bot/Dok_2.5/G/Ivanov/cv.pdf'']
       \<lparr>path_exists = (\<lambda>p. True), path_getsize = (\<lambda>p. None), file_text = (\<lambda>p. None)\<rparr>
       (Some 7) (new_user_data\<lparr>send_birthday_broadcast := Some False\<rparr>))) = Some False"
proof -
  let ?m = "[7 \<mapsto> ''/bot/Dok_2.5/G/Ivanov/cv.pdf''] :: int \<rightharpoonup> string"
  let ?fs = "\<lparr>path_exists = (\<lambda>p. True), path_getsize = (\<lambda>p. None), file_text = (\<lambda>p. None)\<rparr>"
  let ?ud = "new_user_data\<lparr>send_birthday_broadcast := Some False\<rparr>"
  have h: "?m 7 = Some ''/bot/Dok_2.5/G/Ivanov/cv.pdf'' \<and> ''/bot/Dok_2.5/G/Ivanov/cv.pdf'' \<noteq> []
      \<and> path_exists ?fs ''/bot/Dok_2.5/G/Ivanov/cv.pdf''" by simp
  have b: "send_birthday_broadcast ?ud = Some False" by simp
  from conjunct1 [OF mode_transitions_keep_broadcast [of ?m 7 "''/bot/Dok_2.5/G/Ivanov/cv.pdf''" ?fs ?ud]] h
  have "current_mode (fst (button_handler_ask_ai ?m ?fs (Some 7) ?ud)) = MODE_AI
      \<and> pdf_context_path (fst (button_handler_ask_ai ?m ?fs (Some 7) ?ud)) = Some ''/bot/Dok_2.5/G/Ivanov/cv.pdf''
      \<and> send_birthday_broadcast (fst (button_handler_ask_ai ?m ?fs (Some 7) ?ud))
           = send_birthday_broadcast ?ud"
    by (rule mp)
  then show ?thesis by (simp only: b)
qed

text \<open>
  Claim C6. For an index inside the match list the card has a previous button exactly
  when the index is positive and a next button exactly when the index is below the last
  one; their targets are the neighbouring indices and lie inside the list, so the pager
  never wraps around; the card is shown and the pending matches are stored. For an index
  outside the list a navigation request (a button press that edits the card) is answered
  with the invalid-index alert only, no card for another index is shown, and the session
  state is unchanged.
\<close>

theorem pager_affordances_and_bounds:
  "(0 \<le> index \<and> index < int (length matches) \<longrightarrow>
      ((\<exists>j. BtnPrev j \<in> set (concat (generate_person_card_markup matches index))) = (index > 0))
      \<and> ((\<exists>j. BtnNext j \<in> set (concat (generate_person_card_markup matches index)))
           = (index < int (length matches) - 1))
      \<and> (\<forall>j. BtnPrev j \<in> set (concat (generate_person_card_markup matches index))
              \<longrightarrow> j = index - 1 \<and> 0 \<le> j)
      \<and> (\<forall>j. BtnNext j \<in> set (concat (generate_person_card_markup matches index))
              \<longrightarrow> j = index + 1 \<and> j < int (length matches))
      \<and> (\<exists>card. send_person_card cfg fs paths True matches index q True ud
             = (ud\<lparr>current_matches := Some matches, current_match_index := Some index,
                    last_query := Some q\<rparr>,
                [ShowCard q card (get_summary_from_folder cfg fs paths (matches ! nat index))
                   (generate_person_card_markup matches index)])))
   \<and> (\<not> (0 \<le> index \<and> index < int (length matches)) \<longrightarrow>
        send_person_card cfg fs paths True matches index q True ud = (ud, [AlertInvalidIndex])
        \<and> (current_matches ud = Some matches \<and> matches \<noteq> [] \<longrightarrow>
             button_handler_card cfg fs paths (Some index) ud = (ud, [AlertInvalidIndex])))"
  by (auto simp: generate_person_card_markup_def send_person_card_def button_handler_card_def Let_def)

theorem pager_affordances_and_bounds_witness:
  "\<not> (\<exists>j. BtnPrev j \<in> set (concat (generate_person_card_markup [''Dok_2.5/G/A'', ''Dok_2.5/G/B'', ''Dok_2.5/G/C''] 0)))
   \<and> (\<exists>j. BtnNext j \<in> set (concat (generate_person_card_markup [''Dok_2.5/G/A'', ''Dok_2.5/G/B'', ''Dok_2.5/G/C''] 0)))
   \<and> send_person_card (default_config ''/bot'')
        \<lparr>path_exists = (\<lambda>p. False), path_getsize = (\<lambda>p. None), file_text = (\<lambda>p. None)\<rparr> []
        True [''Dok_2.5/G/A'', ''Dok_2.5/G/B'', ''Dok_2.5/G/C''] 3 ''q'' True
        (new_user_data\<lparr>current_matches := Some [''Dok_2.5/G/A'', ''Dok_2.5/G/B'', ''Dok_2.5/G/C''],
                        current_match_index := Some 2\<rparr>)
      = (new_user_data\<lparr>current_matches := Some [''Dok_2.5/G/A'', ''Dok_2.5/G/B'', ''Dok_2.5/G/C''],
                        current_match_index := Some 2\<rparr>, [AlertInvalidIndex])
   \<and> button_handler_card (default_config ''/bot'')
        \<lparr>path_exists = (\<lambda>p. False), path_getsize = (\<lambda>p. None), file_text = (\<lambda>p. None)\<rparr> []
        (Some (- 1))
        (new_user_data\<lparr>current_matches := Some [''Dok_2.5/G/A'', ''Dok_2.5/G/B'', ''Dok_2.5/G/C''],
                        current_match_index := Some 2\<rparr>)
      = (new_user_data\<lparr>current_matches := Some [''Dok_2.5/G/A'', ''Dok_2.5/G/B'', ''Dok_2.5/G/C''],
                        current_match_index := Some 2\<rparr>, [AlertInvalidIndex])"
proof -
  let ?ms = "[''Dok_2.5/G/A'', ''Dok_2.5/G/B'', ''Dok_2.5/G/C'']"
  let ?cfg = "default_config ''/bot''"
  let ?fs = "\<lparr>path_exists = (\<lambda>p. False), path_getsize = (\<lambda>p. None), file_text = (\<lambda>p. None)\<rparr>"
  let ?ud = "new_user_data\<lparr>current_matches := Some ?ms, current_match_index := Some 2\<rparr>"
  have i0: "(0::int) \<le> 0 \<and> 0 < int (length ?ms)" by simp
  have i3: "\<not> ((0::int) \<le> 3 \<and> 3 < int (length ?ms))" by simp
  have im: "\<not> ((0::int) \<le> - 1 \<and> - 1 < int (length ?ms))" by simp
  have cm: "current_matches ?ud = Some ?ms \<and> ?ms \<noteq> []" by simp
  from conjunct1 [OF pager_affordances_and_bounds [of 0 ?ms ?cfg ?fs "[]" "''q''" ?ud]] i0
  have a: "((\<exists>j. BtnPrev j \<in> set (concat (generate_person_card_markup ?ms 0))) = ((0::int) > 0))
      \<and> ((\<exists>j. BtnNext j \<in> set (concat (generate_person_card_markup ?ms 0)))
           = ((0::int) < int (length ?ms) - 1))"
    by blast
  then have a1: "\<not> (\<exists>j. BtnPrev j \<in> set (concat (generate_person_card_markup ?ms 0)))"
    by simp
  from a have a2: "\<exists>j. BtnNext j \<in> set (concat (generate_person_card_markup ?ms 0))"
    by simp
  from conjunct2 [OF pager_affordances_and_bounds [of 3 ?ms ?cfg ?fs "[]" "''q''" ?ud]] i3
  have b: "send_person_card ?cfg ?fs [] True ?ms 3 ''q'' True ?ud = (?ud, [AlertInvalidIndex])"
    by blast
  from conjunct2 [OF pager_affordances_and_bounds [of "- 1" ?ms ?cfg ?fs "[]" "''q''" ?ud]] im cm
  have c: "button_handler_card ?cfg ?fs [] (Some (- 1)) ?ud = (?ud, [AlertInvalidIndex])"
    by blast
  show ?thesis using a1 a2 b c by (intro conjI)
qed

section \<open>Attribution of catalog paths to folders\<close>

lemma in_folder_nested: "prefix (A @ ''/'') B \<Longrightarrow> in_folder p B \<Longrightarrow> in_folder p A"
  unfolding in_folder_def startswith_def
  by (meson prefix_order.trans prefixI prefix_def)

lemma in_folder_disjoint:
  assumes "strict_prefix A B" and "\<not> prefix (A @ ''/'') B" and "in_folder p B"
  shows "\<not> in_folder p A"
proof
  assume "in_folder p A"
  with assms(3) have pa: "prefix (A @ ''/'') p" and pb: "prefix (B @ ''/'') p"
    by (simp_all add: in_folder_def startswith_def)
  have "prefix B (B @ ''/'')" by simp
  from this pb have pb': "prefix B p" by (rule prefix_order.trans)
  from assms(1) have "length A < length B"
    by (metis prefix_length_less)
  then have "length (A @ ''/'') \<le> length B" by simp
  with pa pb' have "prefix (A @ ''/'') B" by (rule prefix_length_prefix)
  with assms(2) show False by simp
qed

lemma collect_filter_irrelevant:
  "(\<And>p. in_folder p A \<Longrightarrow> Q p) \<Longrightarrow>
   send_folder_contents_collect cfg fs A base (filter Q paths) (t0, p0)
     = send_folder_contents_collect cfg fs A base paths (t0, p0)"
  by (induction paths arbitrary: t0 p0) (auto simp: Let_def)

lemma summary_loop_filter_irrelevant:
  "(\<And>p. in_folder p A \<Longrightarrow> Q p) \<Longrightarrow>
   get_summary_from_folder_loop dir A base (filter Q paths)
     = get_summary_from_folder_loop dir A base paths"
  by (induction paths) auto

lemma collect_pdfs_in_folder:
  "pdf \<in> set (snd (send_folder_contents_collect cfg fs A base paths (None, []))) \<Longrightarrow>
   \<exists>p\<in>set paths. in_folder p A \<and> pdf = path_join (SCRIPT_DIR cfg) p"
  by (auto simp: collect_pdfs)

lemma collect_txt_in_folder:
  "fst (send_folder_contents_collect cfg fs A base paths (None, [])) = Some t \<Longrightarrow>
   \<exists>p\<in>set paths. in_folder p A \<and> t = path_join (SCRIPT_DIR cfg) p"
proof -
  assume a: "fst (send_folder_contents_collect cfg fs A base paths (None, [])) = Some t"
  let ?ms = "rev (filter (\<lambda>p. in_folder p A \<and> is_txt p \<and> names_match p base) paths)"
  from a obtain m ms where r: "?ms = m # ms" and t: "t = path_join (SCRIPT_DIR cfg) m"
    by (auto simp: collect_txt split: list.splits)
  have "m \<in> set ?ms" by (simp only: r list.set_intros)
  then have "m \<in> set paths \<and> in_folder m A" by simp
  with t show ?thesis by blast
qed

lemma summary_loop_in_folder:
  "get_summary_from_folder_loop dir A base paths = Some t \<Longrightarrow>
   \<exists>p\<in>set paths. in_folder p A \<and> t = path_join dir p"
proof -
  assume a: "get_summary_from_folder_loop dir A base paths = Some t"
  let ?ms = "filter (\<lambda>p. in_folder p A \<and> names_match p base \<and> is_txt p) paths"
  from a obtain m ms where r: "?ms = m # ms" and t: "t = path_join dir m"
    by (auto simp: summary_loop_first split: list.splits)
  have "m \<in> set ?ms" by (simp only: r list.set_intros)
  then have "m \<in> set paths \<and> in_folder m A" by simp
  with t show ?thesis by blast
qed

lemma get_summary_filter_irrelevant:
  "(\<And>p. in_folder p A \<Longrightarrow> Q p) \<Longrightarrow>
   get_summary_from_folder cfg fs (filter Q paths) A = get_summary_from_folder cfg fs paths A"
  by (simp add: get_summary_from_folder_def summary_loop_filter_irrelevant)

lemma send_folder_contents_filter_irrelevant:
  "(\<And>p. in_folder p A \<Longrightarrow> Q p) \<Longrightarrow>
   send_folder_contents cfg fs (filter Q paths) A = send_folder_contents cfg fs paths A"
  by (simp add: send_folder_contents_def collect_filter_irrelevant)

lemmas str_eval = lower_def lower_char_def isspace_def strip_def replace_underscore_def
  startswith_def endswith_def str_in_def ws_or_underscore_def SHERLOCK_PREFIX_PATTERN_sub_def
  basename_def dirname_def rfind_def splitext_root_def path_join_def in_folder_def clean_lower_def
  names_match_def is_txt_def is_pdf_def char_of_def Let_def bit_0 suffix_to_prefix

text \<open>
  Claim C10, amended. A catalog path is attributed to a folder only when the folder's
  path followed by the separator is a prefix of it: every document and every summary file
  found for a folder is such a path. When the path of one folder is a proper prefix of the
  path of another and the longer path does not continue with the separator there (sibling
  folders such as \<^verbatim>\<open>G/Ivanov\<close> and \<^verbatim>\<open>G/Ivanov_Petr\<close>), no path of the longer folder is
  attributed to the shorter one, and the summary and the contents found for the shorter
  folder are the same with and without the paths of the longer folder in the catalog. When
  the longer path does continue with the separator (a folder inside the folder), every
  path of the longer folder is attributed to the shorter one as well.
\<close>

theorem folder_attribution_by_separator_prefix:
  "(pdf \<in> set (snd (send_folder_contents_collect cfg fs A base paths (None, []))) \<longrightarrow>
      (\<exists>p\<in>set paths. in_folder p A \<and> pdf = path_join (SCRIPT_DIR cfg) p))
   \<and> (fst (send_folder_contents_collect cfg fs A base paths (None, [])) = Some t \<longrightarrow>
      (\<exists>p\<in>set paths. in_folder p A \<and> t = path_join (SCRIPT_DIR cfg) p))
   \<and> (get_summary_from_folder_loop dir A base paths = Some t' \<longrightarrow>
      (\<exists>p\<in>set paths. in_folder p A \<and> t' = path_join dir p))
   \<and> (strict_prefix A B \<and> \<not> prefix (A @ ''/'') B \<longrightarrow>
        (\<forall>p. in_folder p B \<longrightarrow> \<not> in_folder p A)
        \<and> get_summary_from_folder cfg fs (filter (\<lambda>p. \<not> in_folder p B) paths) A
             = get_summary_from_folder cfg fs paths A
        \<and> send_folder_contents cfg fs (filter (\<lambda>p. \<not> in_folder p B) paths) A
             = send_folder_contents cfg fs paths A)
   \<and> (prefix (A @ ''/'') B \<and> in_folder q B \<longrightarrow> in_folder q A)"
proof -
  have 1: "pdf \<in> set (snd (send_folder_contents_collect cfg fs A base paths (None, []))) \<longrightarrow>
      (\<exists>p\<in>set paths. in_folder p A \<and> pdf = path_join (SCRIPT_DIR cfg) p)"
    using collect_pdfs_in_folder by blast
  have 2: "fst (send_folder_contents_collect cfg fs A base paths (None, [])) = Some t \<longrightarrow>
      (\<exists>p\<in>set paths. in_folder p A \<and> t = path_join (SCRIPT_DIR cfg) p)"
    using collect_txt_in_folder by blast
  have 3: "get_summary_from_folder_loop dir A base paths = Some t' \<longrightarrow>
      (\<exists>p\<in>set paths. in_folder p A \<and> t' = path_join dir p)"
    using summary_loop_in_folder by blast
  have 4: "(\<forall>p. in_folder p B \<longrightarrow> \<not> in_folder p A)
        \<and> get_summary_from_folder cfg fs (filter (\<lambda>p. \<not> in_folder p B) paths) A
             = get_summary_from_folder cfg fs paths A
        \<and> send_folder_contents cfg fs (filter (\<lambda>p. \<not> in_folder p B) paths) A
             = send_folder_contents cfg fs paths A"
    if h: "strict_prefix A B \<and> \<not> prefix (A @ ''/'') B"
  proof -
    have d: "\<not> in_folder p B" if "in_folder p A" for p
      using in_folder_disjoint [of A B p] h that by blast
    have s: "get_summary_from_folder cfg fs (filter (\<lambda>p. \<not> in_folder p B) paths) A
             = get_summary_from_folder cfg fs paths A"
      by (rule get_summary_filter_irrelevant) (rule d)
    have c: "send_folder_contents cfg fs (filter (\<lambda>p. \<not> in_folder p B) paths) A
             = send_folder_contents cfg fs paths A"
      by (rule send_folder_contents_filter_irrelevant) (rule d)
    from d s c show ?thesis by blast
  qed
  have 5: "prefix (A @ ''/'') B \<and> in_folder q B \<longrightarrow> in_folder q A"
    using in_folder_nested by blast
  show ?thesis using 1 2 3 4 5 by blast
qed

theorem folder_attribution_by_separator_prefix_witness:
  "strict_prefix ''Dok_2.5/G/Ivanov'' ''Dok_2.5/G/Ivanov_Petr''
   \<and> \<not> prefix (''Dok_2.5/G/Ivanov'' @ ''/'') ''Dok_2.5/G/Ivanov_Petr''
   \<and> in_folder ''Dok_2.5/G/Ivanov_Petr/cv.pdf'' ''Dok_2.5/G/Ivanov_Petr''
   \<and> \<not> in_folder ''Dok_2.5/G/Ivanov_Petr/cv.pdf'' ''Dok_2.5/G/Ivanov''
   \<and> send_folder_contents (default_config ''/bot'')
        \<lparr>path_exists = (\<lambda>p. True), path_getsize = (\<lambda>p. Some 1048576),
         file_text = (\<lambda>p. Some ''Ivanov'')\<rparr>
        (filter (\<lambda>p. \<not> in_folder p ''Dok_2.5/G/Ivanov_Petr'')
           [''Dok_2.5/G/Ivanov/cv.pdf'', ''Dok_2.5/G/Ivanov_Petr/Ivanov.txt'',
            ''Dok_2.5/G/Ivanov_Petr/cv.pdf''])
        ''Dok_2.5/G/Ivanov''
     = send_folder_contents (default_config ''/bot'')
        \<lparr>path_exists = (\<lambda>p. True), path_getsize = (\<lambda>p. Some 1048576),
         file_text = (\<lambda>p. Some ''Ivanov'')\<rparr>
        [''Dok_2.5/G/Ivanov/cv.pdf'', ''Dok_2.5/G/Ivanov_Petr/Ivanov.txt'',
         ''Dok_2.5/G/Ivanov_Petr/cv.pdf'']
        ''Dok_2.5/G/Ivanov''"
proof -
  let ?A = "''Dok_2.5/G/Ivanov''"
  let ?B = "''Dok_2.5/G/Ivanov_Petr''"
  let ?cfg = "default_config ''/bot''"
  let ?fs = "\<lparr>path_exists = (\<lambda>p. True), path_getsize = (\<lambda>p. Some 1048576),
         file_text = (\<lambda>p. Some ''Ivanov'')\<rparr>"
  let ?paths = "[''Dok_2.5/G/Ivanov/cv.pdf'', ''Dok_2.5/G/Ivanov_Petr/Ivanov.txt'',
         ''Dok_2.5/G/Ivanov_Petr/cv.pdf'']"
  have h1: "strict_prefix ?A ?B" by simp
  have h2: "\<not> prefix (?A @ ''/'') ?B" by simp
  have h3: "in_folder ''Dok_2.5/G/Ivanov_Petr/cv.pdf'' ?B" by (simp add: str_eval)
  note t = folder_attribution_by_separator_prefix
     [where A = ?A and B = ?B and cfg = ?cfg and fs = ?fs and paths = ?paths]
  from t h1 h2 have r: "(\<forall>p. in_folder p ?B \<longrightarrow> \<not> in_folder p ?A)
        \<and> get_summary_from_folder ?cfg ?fs (filter (\<lambda>p. \<not> in_folder p ?B) ?paths) ?A
             = get_summary_from_folder ?cfg ?fs ?paths ?A
        \<and> send_folder_contents ?cfg ?fs (filter (\<lambda>p. \<not> in_folder p ?B) ?paths) ?A
             = send_folder_contents ?cfg ?fs ?paths ?A"
    by blast
  from r h3 have n: "\<not> in_folder ''Dok_2.5/G/Ivanov_Petr/cv.pdf'' ?A" by blast
  from r have e: "send_folder_contents ?cfg ?fs (filter (\<lambda>p. \<not> in_folder p ?B) ?paths) ?A
             = send_folder_contents ?cfg ?fs ?paths ?A" by blast
  show ?thesis using h1 h2 h3 n e by (intro conjI)
qed

text \<open>
  The claim as first stated, for any two person folders one of whose paths is a proper
  prefix of the other's, fails for a person folder inside a person folder: the catalog
  below has the person folders \<^verbatim>\<open>Dok_2.5/G\<close> and \<^verbatim>\<open>Dok_2.5/G/G_Petr\<close>, and the summary and
  the documents of the first include the files of the second.
\<close>

theorem nested_folder_counterexample:
  "load_and_extract_person_folders ''Dok_2.5''
      [''Dok_2.5/G/notes.pdf'', ''Dok_2.5/G/G_Petr/G.txt'', ''Dok_2.5/G/G_Petr/cv.pdf'']
     = [''Dok_2.5/G'', ''Dok_2.5/G/G_Petr'']
   \<and> strict_prefix ''Dok_2.5/G'' ''Dok_2.5/G/G_Petr''
   \<and> in_folder ''Dok_2.5/G/G_Petr/G.txt'' ''Dok_2.5/G/G_Petr''
   \<and> in_folder ''Dok_2.5/G/G_Petr/cv.pdf'' ''Dok_2.5/G/G_Petr''
   \<and> get_summary_from_folder (default_config ''/bot'')
        \<lparr>path_exists = (\<lambda>p. True), path_getsize = (\<lambda>p. Some 1048576),
         file_text = (\<lambda>p. Some ''Petr'')\<rparr>
        [''Dok_2.5/G/notes.pdf'', ''Dok_2.5/G/G_Petr/G.txt'', ''Dok_2.5/G/G_Petr/cv.pdf'']
        ''Dok_2.5/G''
       = Summary ''Petr''
   \<and> send_folder_contents (default_config ''/bot'')
        \<lparr>path_exists = (\<lambda>p. True), path_getsize = (\<lambda>p. Some 1048576),
         file_text = (\<lambda>p. Some ''Petr'')\<rparr>
        [''Dok_2.5/G/notes.pdf'', ''Dok_2.5/G/G_Petr/G.txt'', ''Dok_2.5/G/G_Petr/cv.pdf'']
        ''Dok_2.5/G''
       = [SendSummary ''Petr'', SendDocument ''/bot/Dok_2.5/G/notes.pdf'',
          SendDocument ''/bot/Dok_2.5/G/G_Petr/cv.pdf'']"
  by (simp add: load_and_extract_person_folders_def get_summary_from_folder_def
        send_folder_contents_def send_folder_contents_summary_def default_config_def
        file_size_mb_def str_eval)

text \<open>
  Claim C5, evaluated. With two summary files in a folder, \<^verbatim>\<open>get_summary_from_folder\<close>
  shows the first one in catalog order while \<^verbatim>\<open>send_folder_contents\<close> sends the last
  one. And a read that returns exactly 500 characters, the first of them a space, gives a
  short summary of 499 characters without the ellipsis, because the text is stripped
  before its length is compared with 500.
\<close>

theorem summary_selection_divergence:
  "get_summary_from_folder (default_config ''/bot'')
        \<lparr>path_exists = (\<lambda>p. True), path_getsize = (\<lambda>p. None),
         file_text = (\<lambda>p. if p = ''/bot/Dok_2.5/G/Ivanov_Petr/Ivanov_Petr.txt''
                            then Some ''first'' else Some ''second'')\<rparr>
        [''Dok_2.5/G/Ivanov_Petr/Ivanov_Petr.txt'', ''Dok_2.5/G/Ivanov_Petr/Ivanov.txt'']
        ''Dok_2.5/G/Ivanov_Petr''
     = Summary ''first''
   \<and> send_folder_contents (default_config ''/bot'')
        \<lparr>path_exists = (\<lambda>p. True), path_getsize = (\<lambda>p. None),
         file_text = (\<lambda>p. if p = ''/bot/Dok_2.5/G/Ivanov_Petr/Ivanov_Petr.txt''
                            then Some ''first'' else Some ''second'')\<rparr>
        [''Dok_2.5/G/Ivanov_Petr/Ivanov_Petr.txt'', ''Dok_2.5/G/Ivanov_Petr/Ivanov.txt'']
        ''Dok_2.5/G/Ivanov_Petr''
     = [SendSummary ''second'']
   \<and> length (take 500 (CHR '' '' # replicate 499 (CHR ''a'') @ ''more'')) = 500
   \<and> get_summary_from_folder (default_config ''/bot'')
        \<lparr>path_exists = (\<lambda>p. True), path_getsize = (\<lambda>p. None),
         file_text = (\<lambda>p. Some (CHR '' '' # replicate 499 (CHR ''a'') @ ''more''))\<rparr>
        [''Dok_2.5/G/Ivanov_Petr/Ivanov_Petr.txt'']
        ''Dok_2.5/G/Ivanov_Petr''
     = Summary (replicate 499 (CHR ''a''))"
  by (simp add: get_summary_from_folder_def send_folder_contents_def
        send_folder_contents_summary_def default_config_def str_eval dropWhile_replicate)

end
